theory Spec2Isabelle
  imports Complex_Main "HOL-Library.Word"
begin

unbundle bit_operations_syntax

section \<open>Errors raised by the transceiver\<close>

text \<open>
  Every \<^verbatim>\<open>raise\<close> of the Python source is a constructor here.  The spec names three of
  them: \<open>InvalidId\<close> (the \<^verbatim>\<open>ValueError\<close> of \<^verbatim>\<open>embed\<close> for an id of 29 bits or more),
  \<open>HostTooShort\<close> (the \<^verbatim>\<open>ValueError\<close> \<^verbatim>\<open>"Audio file is too short"\<close>) and
  \<open>MalformedFecLength\<close> (the length checks of the FEC).  The others are raised by the
  Python runtime or by numpy: \<^verbatim>\<open>int.to_bytes\<close> on a value that does not fit
  (\<open>OverflowError\<close>), \<^verbatim>\<open>np.concatenate\<close> of an empty list (\<open>ConcatenateEmpty\<close>),
  an index array that points out of range (\<open>IndexError\<close>), and an element-wise operation
  on arrays of different lengths (\<open>ShapeMismatch\<close>), and \<^verbatim>\<open>np.max\<close> or \<^verbatim>\<open>np.argmax\<close>
  of an empty array (\<open>EmptyReduction\<close>).
\<close>

datatype error =
    InvalidId
  | HostTooShort
  | MalformedFecLength
  | OverflowError
  | ConcatenateEmpty
  | IndexError
  | ShapeMismatch
  | EmptyReduction

section \<open>FEC and CRC (fec.py)\<close>

text \<open>
  \<^verbatim>\<open>crc8\<close>: polynomial \<open>0x07\<close>, initial value 0, eight shift steps per byte, the
  register masked to 8 bits after every step.  Python's integers are unbounded, so the
  register is an \<open>int\<close> and the mask \<^verbatim>\<open>crc &= 0xFF\<close> is written out.
\<close>

definition crc8_step :: "int \<Rightarrow> int" where
  "crc8_step crc =
     (if crc AND 0x80 \<noteq> 0 then (push_bit 1 crc) XOR 0x07 else push_bit 1 crc) AND 0xFF"

definition crc8_byte :: "int \<Rightarrow> int \<Rightarrow> int" where
  "crc8_byte crc b = (crc8_step ^^ 8) (crc XOR b)"

definition crc8 :: "int list \<Rightarrow> int" where
  "crc8 data_bytes = foldl crc8_byte 0 data_bytes"

text \<open>
  The matrices of \<^verbatim>\<open>SystematicFEC.__init__\<close>, row by row.
\<close>

definition G :: "int list list" where
  "G = [[1, 0, 0, 0, 1, 1, 0],
        [0, 1, 0, 0, 1, 0, 1],
        [0, 0, 1, 0, 0, 1, 1],
        [0, 0, 0, 1, 1, 1, 1]]"

definition H :: "int list list" where
  "H = [[1, 1, 0, 1, 1, 0, 0],
        [1, 0, 1, 1, 0, 1, 0],
        [0, 1, 1, 1, 0, 0, 1]]"

text \<open>
  \<^verbatim>\<open>np.dot\<close> in its two uses: a vector times a matrix (\<^verbatim>\<open>np.dot(nibble, self.G)\<close>)
  and a matrix times a vector (\<^verbatim>\<open>np.dot(self.H, block)\<close>).  Both callers slice blocks
  of exactly 4 and 7 bits out of an input whose length they have checked, so the shapes
  always agree.
\<close>

definition dot :: "int list \<Rightarrow> int list \<Rightarrow> int" where
  "dot xs ys = sum_list (map2 (*) xs ys)"

definition vec_mat :: "int list \<Rightarrow> int list list \<Rightarrow> int list" where
  "vec_mat v M = map (dot v) (transpose M)"

definition mat_vec :: "int list list \<Rightarrow> int list \<Rightarrow> int list" where
  "mat_vec M v = map (\<lambda>row. dot row v) M"

text \<open>Python's slice \<^verbatim>\<open>xs[a:b]\<close> for \<open>0 \<le> a \<le> b\<close>: it never raises, it truncates.\<close>

definition py_slice :: "'a list \<Rightarrow> nat \<Rightarrow> nat \<Rightarrow> 'a list" where
  "py_slice xs a b = take (b - a) (drop a xs)"

text \<open>
  \<^verbatim>\<open>np.concatenate\<close> raises on an empty list of arrays; this is what both coders do
  on an empty input, after the length check has passed.
\<close>

definition np_concatenate :: "'a list list \<Rightarrow> error + 'a list" where
  "np_concatenate xss = (if xss = [] then Inl ConcatenateEmpty else Inr (concat xss))"

definition encode_block :: "int list \<Rightarrow> int list" where
  "encode_block nibble = map (\<lambda>x. x mod 2) (vec_mat nibble G)"

definition encode_hamming :: "int list \<Rightarrow> error + int list" where
  "encode_hamming bits =
     (if length bits mod 4 \<noteq> 0 then Inl MalformedFecLength
      else np_concatenate
             (map (\<lambda>i. encode_block (py_slice bits (i * 4) ((i + 1) * 4)))
                  [0 ..< length bits div 4]))"

text \<open>
  The dictionary \<^verbatim>\<open>syndrome_map\<close> of \<^verbatim>\<open>SystematicFEC.decode_hamming\<close>, in the order
  it is written in the source.
\<close>

definition syndrome_map :: "int \<rightharpoonup> nat" where
  "syndrome_map = map_of [(3, 0), (5, 1), (6, 2), (7, 3), (1, 4), (2, 5), (4, 6)]"

definition syndrome :: "int list \<Rightarrow> int" where
  "syndrome block =
     (let syndrome_vec = map (\<lambda>x. x mod 2) (mat_vec H block)
      in syndrome_vec ! 0 + syndrome_vec ! 1 * 2 + syndrome_vec ! 2 * 4)"

definition decode_block :: "int list \<Rightarrow> int list" where
  "decode_block block0 =
     (let val = syndrome block0;
          block = (if val > 0
                   then (case syndrome_map val of
                           Some idx \<Rightarrow> block0[idx := 1 - block0 ! idx]
                         | None \<Rightarrow> block0)
                   else block0)
      in take 4 block)"

definition decode_hamming :: "int list \<Rightarrow> error + int list" where
  "decode_hamming bits =
     (if length bits mod 7 \<noteq> 0 then Inl MalformedFecLength
      else np_concatenate
             (map (\<lambda>i. decode_block (py_slice bits (i * 7) ((i + 1) * 7)))
                  [0 ..< length bits div 7]))"

section \<open>Bit codec and byte encoding (deepseal.py)\<close>

text \<open>
  \<^verbatim>\<open>_int_to_bits\<close>: the bits of \<open>val\<close> from position \<open>num_bits - 1\<close> down to 0.
  Bit arrays are numpy arrays of Python integers, so they are \<open>int list\<close>s.
\<close>

definition int_to_bits :: "int \<Rightarrow> nat \<Rightarrow> int list" where
  "int_to_bits val num_bits = map (\<lambda>i. drop_bit i val AND 1) (rev [0 ..< num_bits])"

text \<open>
  \<^verbatim>\<open>_bits_to_int\<close>: \<^verbatim>\<open>val = (val << 1) | int(bit > 0.5)\<close> for each bit in turn.
\<close>

definition bits_to_int :: "int list \<Rightarrow> int" where
  "bits_to_int bits =
     foldl (\<lambda>val bit. push_bit 1 val OR (if real_of_int bit > 0.5 then 1 else 0)) 0 bits"

text \<open>
  \<^verbatim>\<open>int(v).to_bytes(4, byteorder='big')\<close>: four bytes, most significant first;
  Python raises \<^verbatim>\<open>OverflowError\<close> for a negative value and for one of more than 32 bits.
\<close>

definition to_bytes4 :: "int \<Rightarrow> error + int list" where
  "to_bytes4 v =
     (if v < 0 \<or> 2 ^ 32 \<le> v then Inl OverflowError
      else Inr (map (\<lambda>k. drop_bit (8 * k) v AND 0xFF) [3, 2, 1, 0]))"

section \<open>The numeric library\<close>

text \<open>
  The source computes on numpy arrays of IEEE doubles with numpy and scipy routines that are
  not part of the repository.  Samples are modelled as real numbers and the routines as
  the fields of a record, so that every definition below is a function of the library it
  runs on.  The type \<open>'r\<close> is the state of a \<^verbatim>\<open>np.random.RandomState\<close>; drawing from a
  generator returns the advanced state with the values.  Claims whose truth depends on
  rounding, on the Mersenne Twister or on the values of a correlation are not settled on
  this model; the theorems below concern lengths, index ranges, control flow, bits and
  the exact values \<open>-1\<close> and \<open>1\<close>.
\<close>

record 'r numlib =
  RandomState :: "32 word \<Rightarrow> 'r"
  randint :: "'r \<Rightarrow> int \<Rightarrow> int \<Rightarrow> nat \<Rightarrow> int list \<times> 'r"
  permutation :: "'r \<Rightarrow> nat \<Rightarrow> nat list \<times> 'r"
  butter_band :: "nat \<Rightarrow> real \<Rightarrow> real \<Rightarrow> real list \<times> real list"
  lfilter :: "real list \<Rightarrow> real list \<Rightarrow> real list \<Rightarrow> real list"
  convolve_same :: "real list \<Rightarrow> real list \<Rightarrow> real list"
  correlate_valid :: "real list \<Rightarrow> real list \<Rightarrow> real list"
  rfft :: "real list \<Rightarrow> nat \<Rightarrow> complex list"
  irfft :: "complex list \<Rightarrow> nat \<Rightarrow> real list"
  uniform_filter1d :: "real list \<Rightarrow> nat \<Rightarrow> real list"
  np_std :: "real list \<Rightarrow> real"
  np_mean :: "real list \<Rightarrow> real"

text \<open>
  What the documentation of numpy and scipy promises about the shapes and ranges of the
  results, and all that the theorems assume of the library:
  \<^item> \<^verbatim>\<open>randint(low, high, size=n)\<close> with \<open>low < high\<close> returns \<open>n\<close> integers in
    \<open>[low, high)\<close>;
  \<^item> \<^verbatim>\<open>permutation(n)\<close> returns the numbers \<open>0, \<dots>, n - 1\<close> in some order;
  \<^item> \<^verbatim>\<open>lfilter\<close>, \<^verbatim>\<open>uniform_filter1d\<close> and \<^verbatim>\<open>convolve(mode='same')\<close> return an
    array as long as their signal argument;
  \<^item> \<^verbatim>\<open>rfft(x, n)\<close> returns \<open>n div 2 + 1\<close> coefficients and \<^verbatim>\<open>irfft(X, n)\<close>
    returns \<open>n\<close> samples.
\<close>

definition numlib_ok :: "'r numlib \<Rightarrow> bool" where
  "numlib_ok lib \<longleftrightarrow>
     (\<forall>r lo hi n. lo < hi \<longrightarrow>
          length (fst (randint lib r lo hi n)) = n
        \<and> (\<forall>x \<in> set (fst (randint lib r lo hi n)). lo \<le> x \<and> x < hi))
   \<and> (\<forall>r n. length (fst (permutation lib r n)) = n
            \<and> set (fst (permutation lib r n)) = {0 ..< n})
   \<and> (\<forall>b a x. length (lfilter lib b a x) = length x)
   \<and> (\<forall>x w. length (convolve_same lib x w) = length x)
   \<and> (\<forall>x s. length (uniform_filter1d lib x s) = length x)
   \<and> (\<forall>x n. length (rfft lib x n) = n div 2 + 1)
   \<and> (\<forall>X n. length (irfft lib X n) = n)"

text \<open>
  Element-wise multiplication of two one-dimensional arrays: numpy broadcasts an array of
  length 1 and raises \<^verbatim>\<open>ValueError\<close> for any other two different lengths.
\<close>

definition np_mul :: "'a::times list \<Rightarrow> 'a list \<Rightarrow> error + 'a list" where
  "np_mul xs ys =
     (if length xs = length ys then Inr (map2 (*) xs ys)
      else if length xs = 1 then Inr (map (\<lambda>y. hd xs * y) ys)
      else if length ys = 1 then Inr (map (\<lambda>x. x * hd ys) xs)
      else Inl ShapeMismatch)"

text \<open>
  Indexing by an array of indices, \<^verbatim>\<open>xs[idx]\<close>: \<^verbatim>\<open>IndexError\<close> when an index is out
  of range (the indices here are never negative).
\<close>

definition np_take :: "'a list \<Rightarrow> nat list \<Rightarrow> error + 'a list" where
  "np_take xs idx =
     (if \<forall>i \<in> set idx. i < length xs then Inr (map (\<lambda>i. xs ! i) idx) else Inl IndexError)"

text \<open>
  \<^verbatim>\<open>np.argsort\<close>: the indices that sort the array.  The source applies it to a
  permutation, whose entries are distinct, so the order of equal keys does not arise.
\<close>

definition np_argsort :: "nat list \<Rightarrow> nat list" where
  "np_argsort xs = map snd (sort_key fst (zip xs [0 ..< length xs]))"

text \<open>\<^verbatim>\<open>np.repeat(xs, k)\<close>: every element \<open>k\<close> times in a row.\<close>

definition np_repeat :: "'a list \<Rightarrow> nat \<Rightarrow> 'a list" where
  "np_repeat xs k = concat (map (replicate k) xs)"

section \<open>The watermarker object (deepseal.py)\<close>

text \<open>
  The fields of a \<^verbatim>\<open>DeepSeal\<close> object.  The seed is a 32-bit word: the interface
  declares a 32-bit seed, the seed derived from a key is four bytes, and
  \<^verbatim>\<open>RandomState\<close> accepts no other seed.  \<^verbatim>\<open>chip_rate\<close> and \<^verbatim>\<open>sample_rate\<close> are
  the configured numbers of samples, natural numbers.  The field \<open>rng\<close> is the
  generator the constructor creates and stores in the object.  The \<^verbatim>\<open>fec\<close> field is a
  \<^verbatim>\<open>SystematicFEC\<close>, which has no state beyond its two constant matrices.
\<close>

record 'r deepseal =
  seed :: "32 word"
  chip_rate :: nat
  sample_rate :: nat
  telecom_mode :: bool
  rng :: 'r

text \<open>The 16 preamble bits the constructor stores: Barker-13 and three zeros.\<close>

definition preamble_bits :: "int list" where
  "preamble_bits = [1, 1, 1, 1, 1, 0, 0, 1, 1, 0, 1, 0, 1, 0, 0, 0]"

text \<open>
  \<^verbatim>\<open>generate_pn_sequence\<close>: a generator of its own, seeded with the object's seed, draws
  \<open>length\<close> integers from \<open>{0, 1}\<close>; they are mapped to \<open>-1\<close> and \<open>1\<close> and converted to
  floating point.  The method is written in state-passing style: it returns the sequence
  and the object as the call leaves it.
\<close>

definition generate_pn_sequence ::
  "'r numlib \<Rightarrow> 'r deepseal \<Rightarrow> nat \<Rightarrow> real list \<times> 'r deepseal" where
  "generate_pn_sequence lib self len =
     (let local_rng = RandomState lib (seed self);
          noise = map (\<lambda>x. x * 2 - 1) (fst (randint lib local_rng 0 2 len))
      in (map real_of_int noise, self))"

text \<open>
  \<^verbatim>\<open>_apply_bandpass\<close>: a Butterworth band-pass of order 2 between 500 Hz and 3000 Hz,
  run over the signal by \<^verbatim>\<open>lfilter\<close>.
\<close>

definition apply_bandpass :: "'r numlib \<Rightarrow> 'r deepseal \<Rightarrow> real list \<Rightarrow> real list" where
  "apply_bandpass lib self audio =
     (let low_cut = 500; high_cut = 3000;
          nyquist = 0.5 * real (sample_rate self);
          low = low_cut / nyquist; high = high_cut / nyquist;
          (b, a) = butter_band lib 2 low high
      in lfilter lib b a audio)"

section \<open>Extraction after synchronisation (deepseal.py, extract, steps 2 to 5)\<close>

text \<open>
  \<^verbatim>\<open>extract\<close> first locates the frame by correlation (steps 0 and 1), which leaves the
  three values \<^verbatim>\<open>final_audio\<close>, \<^verbatim>\<open>final_start_index\<close> and \<^verbatim>\<open>polarity_sign\<close>.
  The rest of the method, from \<^verbatim>\<open># 2. Demodulation\<close> to its end, is a function of
  these three values and is modelled here, stage by stage.  The start index is a sum of
  an index clamped at 0 and a position in a correlation, hence a natural number.
\<close>

text \<open>The PN chips that cover the payload, filtered as the received audio was.\<close>

definition payload_pn :: "'r numlib \<Rightarrow> 'r deepseal \<Rightarrow> real list" where
  "payload_pn lib self =
     (let encoded_payload_len = 70;
          preamble_len_chips = length preamble_bits * chip_rate self;
          full_pn_sequence =
            fst (generate_pn_sequence lib self
                   (preamble_len_chips + encoded_payload_len * chip_rate self));
          payload_start_chip = length preamble_bits * chip_rate self;
          total_payload_chips = encoded_payload_len * chip_rate self;
          pn = py_slice full_pn_sequence payload_start_chip
                 (payload_start_chip + total_payload_chips)
      in if telecom_mode self then apply_bandpass lib self pn
         else lfilter lib [1, - 0.95] [1] pn)"

text \<open>
  The demodulator: the payload window of the audio times the chips times the polarity, then
  one bit per group of \<open>chip_rate\<close> products, 1 when their sum is positive.
\<close>

definition demodulate ::
  "'r numlib \<Rightarrow> 'r deepseal \<Rightarrow> real list \<Rightarrow> nat \<Rightarrow> real \<Rightarrow> error + int list" where
  "demodulate lib self final_audio final_start_index polarity_sign =
     (let encoded_payload_len = 70;
          payload_start_chip = length preamble_bits * chip_rate self;
          total_payload_chips = encoded_payload_len * chip_rate self;
          payload_audio = py_slice final_audio (final_start_index + payload_start_chip)
                            (final_start_index + payload_start_chip + total_payload_chips)
      in case np_mul payload_audio (payload_pn lib self) of
           Inl e \<Rightarrow> Inl e
         | Inr products \<Rightarrow>
             let demodulated_chips = map (\<lambda>x. x * polarity_sign) products
             in Inr (map (\<lambda>i. if sum_list (py_slice demodulated_chips (i * chip_rate self)
                                              ((i + 1) * chip_rate self)) > 0
                                then 1 else 0)
                         [0 ..< encoded_payload_len]))"

text \<open>
  De-interleaving: the permutation of the interleaver is drawn again from a generator
  seeded with \<open>0xDEADBEEF\<close> and inverted by \<^verbatim>\<open>argsort\<close>.
\<close>

definition deinterleave :: "'r numlib \<Rightarrow> int list \<Rightarrow> error + int list" where
  "deinterleave lib raw_bits =
     (let interleaver_rng = RandomState lib 0xDEADBEEF;
          perm_indices = fst (permutation lib interleaver_rng (length raw_bits));
          inv_indices = np_argsort perm_indices
      in np_take raw_bits inv_indices)"

text \<open>
  The integrity gate: 32 payload bits and 8 CRC bits; the CRC is recomputed over the four
  big-endian bytes of the payload; on a match the upper four bits are masked away.
\<close>

definition verify_payload :: "int list \<Rightarrow> error + int option" where
  "verify_payload decoded_bits =
     (if length decoded_bits \<noteq> 40 then Inr None
      else
        let payload_bits = take 32 decoded_bits;
            crc_bits = drop 32 decoded_bits;
            extracted_id = bits_to_int payload_bits;
            extracted_crc = bits_to_int crc_bits
        in case to_bytes4 extracted_id of
             Inl e \<Rightarrow> Inl e
           | Inr payload_bytes \<Rightarrow>
               let calc_crc = crc8 payload_bytes
               in if calc_crc = extracted_crc
                  then (let version = drop_bit 28 extracted_id AND 0xF;
                            content_id = extracted_id AND 0x0FFFFFFF
                        in Inr (Some content_id))
                  else Inr None)"

text \<open>The bits that reach the integrity gate: demodulated, de-interleaved, FEC-decoded.\<close>

definition decoded_bits ::
  "'r numlib \<Rightarrow> 'r deepseal \<Rightarrow> real list \<Rightarrow> nat \<Rightarrow> real \<Rightarrow> error + int list" where
  "decoded_bits lib self final_audio final_start_index polarity_sign =
     (case demodulate lib self final_audio final_start_index polarity_sign of
        Inl e \<Rightarrow> Inl e
      | Inr raw_bits \<Rightarrow>
          (case deinterleave lib raw_bits of
             Inl e \<Rightarrow> Inl e
           | Inr deinterleaved_bits \<Rightarrow> decode_hamming deinterleaved_bits))"

definition extract_from_sync ::
  "'r numlib \<Rightarrow> 'r deepseal \<Rightarrow> real list \<Rightarrow> nat \<Rightarrow> real \<Rightarrow> error + int option" where
  "extract_from_sync lib self final_audio final_start_index polarity_sign =
     (let encoded_payload_len = 70;
          payload_start_chip = length preamble_bits * chip_rate self;
          total_payload_chips = encoded_payload_len * chip_rate self
      in if final_start_index + payload_start_chip + total_payload_chips > length final_audio
         then Inr None
         else (case decoded_bits lib self final_audio final_start_index polarity_sign of
                 Inl e \<Rightarrow> Inl e
               | Inr bits \<Rightarrow> verify_payload bits))"

section \<open>A small executable library\<close>

text \<open>
  A library on which the definitions can be evaluated: the generator state is a counter,
  \<^verbatim>\<open>randint\<close> alternates between the two ends of its range starting from the parity
  of the state, \<^verbatim>\<open>permutation\<close> reverses the identity, the filters return their
  input, and the inverse FFT returns a constant signal.  It satisfies \<open>numlib_ok\<close>.
\<close>

definition toy_numlib :: "nat numlib" where
  "toy_numlib =
     \<lparr> RandomState = unat,
       randint = (\<lambda>r lo hi n. (map (\<lambda>i. if even (r + i) then hi - 1 else lo) [0 ..< n], r + n)),
       permutation = (\<lambda>r n. (rev [0 ..< n], r + n)),
       butter_band = (\<lambda>order low high. ([1], [1])),
       lfilter = (\<lambda>b a x. x),
       convolve_same = (\<lambda>x w. x),
       correlate_valid = (\<lambda>x y. [0]),
       rfft = (\<lambda>x n. replicate (n div 2 + 1) 1),
       irfft = (\<lambda>X n. replicate n 1),
       uniform_filter1d = (\<lambda>x s. x),
       np_std = (\<lambda>x. 1),
       np_mean = (\<lambda>x. 0) \<rparr>"

text \<open>A watermarker with seed 42, one chip per bit, standard mode.\<close>

definition toy_deepseal :: "nat deepseal" where
  "toy_deepseal =
     \<lparr> seed = 42, chip_rate = 1, sample_rate = 44100, telecom_mode = False, rng = 42 \<rparr>"

section \<open>SHA-256 (hashlib)\<close>

text \<open>
  The constructor derives the seed of a keyed watermarker from
  \<^verbatim>\<open>hashlib.sha256(key.encode('utf-8')).digest()\<close>.  SHA-256 is the function of
  FIPS 180-4, written out here on 32-bit words so that it can be evaluated: the message
  is padded with a one bit, zeros and its length in bits as a 64-bit number, and every
  block of 16 words is expanded to 64 words and run through 64 rounds.
\<close>

definition rotr :: "nat \<Rightarrow> 32 word \<Rightarrow> 32 word" where
  "rotr n x = drop_bit n x OR push_bit (32 - n) x"

definition sha_ch :: "32 word \<Rightarrow> 32 word \<Rightarrow> 32 word \<Rightarrow> 32 word" where
  "sha_ch x y z = (x AND y) XOR (NOT x AND z)"

definition sha_maj :: "32 word \<Rightarrow> 32 word \<Rightarrow> 32 word \<Rightarrow> 32 word" where
  "sha_maj x y z = (x AND y) XOR (x AND z) XOR (y AND z)"

definition big_sigma0 :: "32 word \<Rightarrow> 32 word" where
  "big_sigma0 x = rotr 2 x XOR rotr 13 x XOR rotr 22 x"

definition big_sigma1 :: "32 word \<Rightarrow> 32 word" where
  "big_sigma1 x = rotr 6 x XOR rotr 11 x XOR rotr 25 x"

definition small_sigma0 :: "32 word \<Rightarrow> 32 word" where
  "small_sigma0 x = rotr 7 x XOR rotr 18 x XOR drop_bit 3 x"

definition small_sigma1 :: "32 word \<Rightarrow> 32 word" where
  "small_sigma1 x = rotr 17 x XOR rotr 19 x XOR drop_bit 10 x"

definition sha_k :: "32 word list" where
  "sha_k = [
   0x428a2f98, 0x71374491, 0xb5c0fbcf, 0xe9b5dba5, 0x3956c25b, 0x59f111f1, 0x923f82a4, 0xab1c5ed5,
   0xd807aa98, 0x12835b01, 0x243185be, 0x550c7dc3, 0x72be5d74, 0x80deb1fe, 0x9bdc06a7, 0xc19bf174,
   0xe49b69c1, 0xefbe4786, 0x0fc19dc6, 0x240ca1cc, 0x2de92c6f, 0x4a7484aa, 0x5cb0a9dc, 0x76f988da,
   0x983e5152, 0xa831c66d, 0xb00327c8, 0xbf597fc7, 0xc6e00bf3, 0xd5a79147, 0x06ca6351, 0x14292967,
   0x27b70a85, 0x2e1b2138, 0x4d2c6dfc, 0x53380d13, 0x650a7354, 0x766a0abb, 0x81c2c92e, 0x92722c85,
   0xa2bfe8a1, 0xa81a664b, 0xc24b8b70, 0xc76c51a3, 0xd192e819, 0xd6990624, 0xf40e3585, 0x106aa070,
   0x19a4c116, 0x1e376c08, 0x2748774c, 0x34b0bcb5, 0x391c0cb3, 0x4ed8aa4a, 0x5b9cca4f, 0x682e6ff3,
   0x748f82ee, 0x78a5636f, 0x84c87814, 0x8cc70208, 0x90befffa, 0xa4506ceb, 0xbef9a3f7, 0xc67178f2]"

definition sha_h0 :: "32 word list" where
  "sha_h0 = [0x6a09e667, 0xbb67ae85, 0x3c6ef372, 0xa54ff53a,
             0x510e527f, 0x9b05688c, 0x1f83d9ab, 0x5be0cd19]"

fun sha_extend :: "nat \<Rightarrow> 32 word list \<Rightarrow> 32 word list" where
  "sha_extend 0 w = w"
| "sha_extend (Suc k) w =
     (let t = length w
      in sha_extend k (w @ [small_sigma1 (w ! (t - 2)) + w ! (t - 7)
                            + small_sigma0 (w ! (t - 15)) + w ! (t - 16)]))"

fun sha_round :: "32 word list \<Rightarrow> 32 word \<times> 32 word \<Rightarrow> 32 word list" where
  "sha_round [a, b, c, d, e, f, g, h] (k, w) =
     (let t1 = h + big_sigma1 e + sha_ch e f g + k + w;
          t2 = big_sigma0 a + sha_maj a b c
      in [t1 + t2, a, b, c, d + t1, e, f, g])"
| "sha_round s _ = s"

definition sha_compress :: "32 word list \<Rightarrow> 32 word list \<Rightarrow> 32 word list" where
  "sha_compress h block =
     map2 (+) h (foldl sha_round h (zip sha_k (sha_extend 48 block)))"

definition be_word :: "8 word list \<Rightarrow> 32 word" where
  "be_word bs = foldl (\<lambda>acc b. push_bit 8 acc OR ucast b) 0 bs"

fun sha_words :: "8 word list \<Rightarrow> 32 word list" where
  "sha_words (a # b # c # d # rest) = be_word [a, b, c, d] # sha_words rest"
| "sha_words _ = []"

definition sha_pad :: "8 word list \<Rightarrow> 8 word list" where
  "sha_pad msg =
     (let l = length msg;
          k = (119 - l mod 64) mod 64;
          bit_len = (of_nat (8 * l) :: 64 word)
      in msg @ [0x80] @ replicate k 0
         @ map (\<lambda>i. ucast (drop_bit (8 * i) bit_len)) [7, 6, 5, 4, 3, 2, 1, 0])"

fun sha_blocks :: "nat \<Rightarrow> 32 word list \<Rightarrow> 32 word list \<Rightarrow> 32 word list" where
  "sha_blocks 0 h ws = h"
| "sha_blocks (Suc n) h ws = sha_blocks n (sha_compress h (take 16 ws)) (drop 16 ws)"

definition sha256 :: "8 word list \<Rightarrow> 8 word list" where
  "sha256 msg =
     (let ws = sha_words (sha_pad msg);
          h = sha_blocks (length ws div 16) sha_h0 ws
      in concat (map (\<lambda>w. map (\<lambda>i. ucast (drop_bit (8 * i) w)) [3, 2, 1, 0]) h))"

section \<open>The constructor (deepseal.py, \<^verbatim>\<open>__init__\<close>)\<close>

text \<open>
  \<^verbatim>\<open>int.from_bytes(bs, 'big')\<close> for the four bytes the constructor passes: a 32-bit
  value.
\<close>

definition from_bytes_big :: "8 word list \<Rightarrow> 32 word" where
  "from_bytes_big bs = be_word bs"

text \<open>
  A key is a Python string; it is modelled by the bytes of its UTF-8 encoding, so that
  \<^verbatim>\<open>key.encode('utf-8')\<close> is the list of these bytes, and the empty string is the
  empty list.
\<close>

definition encode_utf8 :: "string \<Rightarrow> 8 word list" where
  "encode_utf8 key = map (\<lambda>c. word_of_nat (of_char c)) key"

text \<open>
  \<^verbatim>\<open>__init__\<close>: with \<^verbatim>\<open>seed is None\<close> the test \<^verbatim>\<open>if key:\<close> selects the hash of
  the key; it fails for \<^verbatim>\<open>None\<close> and for the empty string, and the seed is then 42.
  Otherwise the seed is the argument.  The generator \<^verbatim>\<open>self.rng\<close> is created from the
  seed.
\<close>

definition DeepSeal_init ::
  "'r numlib \<Rightarrow> 32 word option \<Rightarrow> string option \<Rightarrow> nat \<Rightarrow> nat \<Rightarrow> bool \<Rightarrow> 'r deepseal" where
  "DeepSeal_init lib seed_arg key chip_rate_arg sample_rate_arg telecom_mode_arg =
     (let self_seed =
            (case seed_arg of
               None \<Rightarrow>
                 (case key of
                    None \<Rightarrow> 42
                  | Some k \<Rightarrow>
                      if k \<noteq> []
                      then (let hash_bytes = sha256 (encode_utf8 k)
                            in from_bytes_big (take 4 hash_bytes))
                      else 42)
             | Some s \<Rightarrow> s)
      in \<lparr> seed = self_seed, chip_rate = chip_rate_arg, sample_rate = sample_rate_arg,
           telecom_mode = telecom_mode_arg, rng = RandomState lib self_seed \<rparr>)"

section \<open>The coarse synchronisation window (deepseal.py, extract, steps 0 and 1a)\<close>

text \<open>\<^verbatim>\<open>_normalize_signal\<close>: zero mean and, unless the signal is flat, unit variance.\<close>

definition normalize_signal :: "'r numlib \<Rightarrow> real list \<Rightarrow> real list" where
  "normalize_signal lib audio =
     (if length audio = 0 then audio
      else let std_val = np_std lib audio
           in if std_val < 1 / 10 ^ 9 then map (\<lambda>x. x - np_mean lib audio) audio
              else map (\<lambda>x. (x - np_mean lib audio) / std_val) audio)"

text \<open>Step 0: band-pass and normalisation in telecom mode, pre-emphasis otherwise.\<close>

definition preprocess :: "'r numlib \<Rightarrow> 'r deepseal \<Rightarrow> real list \<Rightarrow> real list" where
  "preprocess lib self audio =
     (if telecom_mode self then normalize_signal lib (apply_bandpass lib self audio)
      else lfilter lib [1, - 0.95] [1] audio)"

text \<open>
  The reference preamble: the 16 preamble bits, each repeated \<open>chip_rate\<close> times and
  mapped to \<open>\<plusminus>1\<close>, times the first chips of the PN sequence, then filtered like the audio.
\<close>

definition reference_preamble :: "'r numlib \<Rightarrow> 'r deepseal \<Rightarrow> error + real list" where
  "reference_preamble lib self =
     (let encoded_payload_len = 70;
          preamble_len_chips = length preamble_bits * chip_rate self;
          full_pn_sequence =
            fst (generate_pn_sequence lib self
                   (preamble_len_chips + encoded_payload_len * chip_rate self));
          preamble_pn = take preamble_len_chips full_pn_sequence;
          expanded_preamble = map (\<lambda>b. b * 2 - 1) (np_repeat preamble_bits (chip_rate self))
      in case np_mul (map real_of_int expanded_preamble) preamble_pn of
           Inl e \<Rightarrow> Inl e
         | Inr reference \<Rightarrow>
             Inr (if telecom_mode self then apply_bandpass lib self reference
                  else lfilter lib [1, - 0.95] [1] reference))"

text \<open>
  The length of the search window, as the source computes it:
  \<^verbatim>\<open>search_len = preamble_len_chips * 2 + 44100 * 2\<close>.
\<close>

definition search_len :: "'r deepseal \<Rightarrow> nat" where
  "search_len self =
     (let preamble_len_chips = length preamble_bits * chip_rate self
      in preamble_len_chips * 2 + 44100 * 2)"

definition search_window :: "'r deepseal \<Rightarrow> real list \<Rightarrow> real list" where
  "search_window self processed_audio =
     take (min (length processed_audio) (search_len self)) processed_audio"

text \<open>\<^verbatim>\<open>np.argmax\<close>: the first position of the largest element.\<close>

definition np_argmax :: "real list \<Rightarrow> error + nat" where
  "np_argmax xs =
     (if xs = [] then Inl EmptyReduction
      else Inr (hd (filter (\<lambda>i. xs ! i = Max (set xs)) [0 ..< length xs])))"

text \<open>
  \<^verbatim>\<open>_attempt_sync\<close>: the position and the signed value of the largest magnitude of the
  cross-correlation.
\<close>

definition attempt_sync :: "'r numlib \<Rightarrow> real list \<Rightarrow> real list \<Rightarrow> error + nat \<times> real" where
  "attempt_sync lib audio_chunk reference =
     (let correlation = correlate_valid lib audio_chunk reference
      in case np_argmax (map abs correlation) of
           Inl e \<Rightarrow> Inl e
         | Inr peak_idx \<Rightarrow> Inr (peak_idx, correlation ! peak_idx))"

text \<open>Step 1a of \<^verbatim>\<open>extract\<close>: the first correlation, over the search window.\<close>

definition coarse_sync :: "'r numlib \<Rightarrow> 'r deepseal \<Rightarrow> real list \<Rightarrow> error + nat \<times> real" where
  "coarse_sync lib self audio =
     (case reference_preamble lib self of
        Inl e \<Rightarrow> Inl e
      | Inr reference \<Rightarrow>
          attempt_sync lib (search_window self (preprocess lib self audio)) reference)"

section \<open>The embedder (deepseal.py, embed)\<close>

text \<open>Python's \<^verbatim>\<open>int.bit_length\<close>: the number of bits of the absolute value.\<close>

fun nat_bit_length :: "nat \<Rightarrow> nat" where
  "nat_bit_length n = (if n = 0 then 0 else Suc (nat_bit_length (n div 2)))"

declare nat_bit_length.simps [simp del]

definition py_bit_length :: "int \<Rightarrow> nat" where
  "py_bit_length x = nat_bit_length (nat \<bar>x\<bar>)"

definition np_max :: "real list \<Rightarrow> error + real" where
  "np_max xs = (if xs = [] then Inl EmptyReduction else Inr (Max (set xs)))"

text \<open>
  \<^verbatim>\<open>_shape_spectrum\<close>: the spectrum of the noise is multiplied by the smoothed,
  normalised and floored magnitude spectrum of the audio, and the result is transformed
  back and cut to the length of the audio.
\<close>

definition shape_spectrum :: "'r numlib \<Rightarrow> real list \<Rightarrow> real list \<Rightarrow> error + real list" where
  "shape_spectrum lib noise audio =
     (if length noise \<noteq> length audio then Inr noise
      else
        let n_fft = 2 ^ py_bit_length (int (length audio) - 1);
            audio_fft = rfft lib audio n_fft;
            noise_fft = rfft lib noise n_fft;
            audio_mag = map cmod audio_fft;
            window_size = (if n_fft div 64 < 1 then 1 else n_fft div 64);
            smoothed_mag = uniform_filter1d lib audio_mag window_size
        in case np_max smoothed_mag of
             Inl e \<Rightarrow> Inl e
           | Inr peak \<Rightarrow>
               let normalised = (if peak > 1 / 10 ^ 9 then map (\<lambda>x. x / peak) smoothed_mag
                                 else smoothed_mag);
                   floored = map (\<lambda>x. max x 0.2) normalised
               in case np_mul noise_fft (map complex_of_real floored) of
                    Inl e \<Rightarrow> Inl e
                  | Inr shaped_noise_fft \<Rightarrow>
                      Inr (take (length audio) (irfft lib shaped_noise_fft n_fft)))"

text \<open>
  \<^verbatim>\<open>_compute_masking_threshold\<close> with its default window of 1024 samples: the RMS
  envelope, floored at \<open>1e-9\<close>, scaled by \<open>10 ** (threshold_db / 20)\<close>.
\<close>

definition compute_masking_threshold :: "'r numlib \<Rightarrow> 'r deepseal \<Rightarrow> real list \<Rightarrow> real list" where
  "compute_masking_threshold lib self audio =
     (let window_size = 1024;
          squared_audio = map (\<lambda>x. x ^ 2) audio;
          window = replicate window_size (1 / real window_size);
          envelope = map sqrt (convolve_same lib squared_audio window);
          floored = map (\<lambda>e. max e (1 / 10 ^ 9)) envelope;
          threshold_db = (if telecom_mode self then - 15 else - 25);
          scale_factor = 10 powr (threshold_db / 20)
      in map (\<lambda>e. e * scale_factor) floored)"

text \<open>
  The in-place addition \<^verbatim>\<open>target += values\<close> on a slice: the values must be as many as
  the slice has elements, or a single one.
\<close>

definition np_iadd :: "real list \<Rightarrow> real list \<Rightarrow> error + real list" where
  "np_iadd target vals =
     (if length vals = length target then Inr (map2 (+) target vals)
      else if length vals = 1 then Inr (map (\<lambda>x. x + hd vals) target)
      else Inl ShapeMismatch)"

text \<open>
  \<^verbatim>\<open>embed\<close> is modelled in three stages, in the order of the source.  The first stage
  (\<^verbatim>\<open># [Phase 5: Protocol]\<close> and \<^verbatim>\<open># 1. Prepare Data\<close>) checks the identifier, a Python
  integer, and builds the bits of the frame: the payload with version 1, its CRC, the
  Hamming code, the interleaver, and the preamble before and after.
\<close>

definition frame_bits :: "'r numlib \<Rightarrow> int \<Rightarrow> error + int list" where
  "frame_bits lib watermark_id =
     (if watermark_id \<ge> 2 ^ 28 then Inl InvalidId
      else
        let version = 1;
            final_id = push_bit 28 version OR watermark_id;
            payload_bits = int_to_bits final_id 32
        in case to_bytes4 final_id of
             Inl e \<Rightarrow> Inl e
           | Inr payload_bytes \<Rightarrow>
               let crc_val = crc8 payload_bytes;
                   crc_bits = int_to_bits crc_val 8;
                   data_to_encode = payload_bits @ crc_bits
               in case encode_hamming data_to_encode of
                    Inl e \<Rightarrow> Inl e
                  | Inr encoded_bits \<Rightarrow>
                      let interleaver_rng = RandomState lib 0xDEADBEEF;
                          perm_indices =
                            fst (permutation lib interleaver_rng (length encoded_bits))
                      in case np_take encoded_bits perm_indices of
                           Inl e \<Rightarrow> Inl e
                         | Inr interleaved_bits \<Rightarrow>
                             Inr (preamble_bits @ interleaved_bits @ preamble_bits))"

text \<open>
  The second stage (\<^verbatim>\<open># 2. Generate PN Sequence\<close> and
  \<^verbatim>\<open># 3. Spread Spectrum Modulation\<close>): every bit is repeated \<open>chip_rate\<close> times, mapped
  to \<open>\<plusminus>1\<close> and multiplied by the PN chip; in telecom mode the result is band-passed.
\<close>

definition spread_spectrum :: "'r numlib \<Rightarrow> 'r deepseal \<Rightarrow> int list \<Rightarrow> error + real list" where
  "spread_spectrum lib self full_message_bits =
     (let total_chips = length full_message_bits * chip_rate self;
          pn_sequence = fst (generate_pn_sequence lib self total_chips);
          expanded_bits = np_repeat full_message_bits (chip_rate self);
          modulated_bits = map (\<lambda>b. b * 2 - 1) expanded_bits
      in case np_mul (map real_of_int modulated_bits) pn_sequence of
           Inl e \<Rightarrow> Inl e
         | Inr spread_signal \<Rightarrow>
             Inr (if telecom_mode self then apply_bandpass lib self spread_signal
                  else spread_signal))"

text \<open>
  The third stage (\<^verbatim>\<open># 4. Psychoacoustic Masking\<close> and \<^verbatim>\<open># 5. Injection\<close>): the check of
  the host length, the spectral shaping and the amplitude mask against the first
  \<open>len(spread_signal)\<close> samples of the host, and the addition to a copy of the host.
\<close>

definition mask_and_inject ::
  "'r numlib \<Rightarrow> 'r deepseal \<Rightarrow> real list \<Rightarrow> real list \<Rightarrow> error + real list" where
  "mask_and_inject lib self audio spread_signal =
     (if length audio < length spread_signal then Inl HostTooShort
      else
        case shape_spectrum lib spread_signal (take (length spread_signal) audio) of
          Inl e \<Rightarrow> Inl e
        | Inr shaped \<Rightarrow>
            let std_shaped = np_std lib shaped;
                shaped_signal = (if std_shaped > 1 / 10 ^ 9
                                 then map (\<lambda>x. x / std_shaped) shaped else shaped);
                masking_envelope =
                  compute_masking_threshold lib self (take (length spread_signal) audio)
            in case np_mul shaped_signal masking_envelope of
                 Inl e \<Rightarrow> Inl e
               | Inr weighted_watermark \<Rightarrow>
                   (case np_iadd (take (length spread_signal) audio) weighted_watermark of
                      Inl e \<Rightarrow> Inl e
                    | Inr head \<Rightarrow> Inr (head @ drop (length spread_signal) audio)))"

text \<open>The value \<^verbatim>\<open>embed\<close> returns, or the exception it raises.\<close>

definition embed_result :: "'r numlib \<Rightarrow> 'r deepseal \<Rightarrow> real list \<Rightarrow> int \<Rightarrow> error + real list" where
  "embed_result lib self audio watermark_id =
     (case frame_bits lib watermark_id of
        Inl e \<Rightarrow> Inl e
      | Inr full_message_bits \<Rightarrow>
          (case spread_spectrum lib self full_message_bits of
             Inl e \<Rightarrow> Inl e
           | Inr spread_signal \<Rightarrow> mask_and_inject lib self audio spread_signal))"

text \<open>
  \<^verbatim>\<open>embed\<close> in state-passing style: the result and the caller's host array as the call
  leaves it.  The method only reads \<^verbatim>\<open>audio\<close>; what it modifies is the copy made by
  \<^verbatim>\<open>audio.copy()\<close>.
\<close>

definition embed ::
  "'r numlib \<Rightarrow> 'r deepseal \<Rightarrow> real list \<Rightarrow> int \<Rightarrow> (error + real list) \<times> real list" where
  "embed lib self audio watermark_id = (embed_result lib self audio watermark_id, audio)"

section \<open>The stream adapter (realtime.py)\<close>

record 'r injector =
  ds :: "'r deepseal"
  watermark_id :: int
  bits_count :: nat
  chunk_size :: nat
  buffer :: "real list"

text \<open>
  \<^verbatim>\<open>RealTimeInjector.__init__\<close>: a watermarker with the default seed in standard mode,
  a frame of 86 bits, an empty buffer.
\<close>

definition RealTimeInjector_init :: "'r numlib \<Rightarrow> int \<Rightarrow> nat \<Rightarrow> nat \<Rightarrow> 'r injector" where
  "RealTimeInjector_init lib watermark_id_arg chip_rate_arg sample_rate_arg =
     \<lparr> ds = DeepSeal_init lib None None chip_rate_arg sample_rate_arg False,
       watermark_id = watermark_id_arg,
       bits_count = 86,
       chunk_size = 86 * chip_rate_arg,
       buffer = [] \<rparr>"

text \<open>
  The inner loop of \<^verbatim>\<open>process_stream\<close>: while the buffer holds a frame, the frame is
  cut off and embedded and the result is yielded.  The state of the generator is the
  injector, the list of chunks yielded so far and the exception that ended it, if any.
  With a frame of no samples the loop need not end, so the function is partial: \<open>None\<close>
  stands for a loop that does not return.
\<close>

partial_function (option) drain_buffer ::
  "'r numlib \<Rightarrow> 'r injector \<Rightarrow> real list list
     \<Rightarrow> ('r injector \<times> real list list \<times> error option) option" where
  "drain_buffer lib rti yielded =
     (if length (buffer rti) \<ge> chunk_size rti
      then (let frame = take (chunk_size rti) (buffer rti);
                rti' = rti\<lparr>buffer := drop (chunk_size rti) (buffer rti)\<rparr>
            in case fst (embed lib (ds rti') frame (watermark_id rti')) of
                 Inl e \<Rightarrow> Some (rti', yielded, Some e)
               | Inr watermarked_frame \<Rightarrow>
                   drain_buffer lib rti' (yielded @ [watermarked_frame]))
      else Some (rti, yielded, None))"

text \<open>
  The outer loop over the chunks of the input stream, and the remainder of the buffer
  that is yielded when the stream ends.
\<close>

fun process_chunks ::
  "'r numlib \<Rightarrow> 'r injector \<Rightarrow> real list list \<Rightarrow> real list list
     \<Rightarrow> ('r injector \<times> real list list \<times> error option) option" where
  "process_chunks lib rti [] yielded =
     (if length (buffer rti) > 0 then Some (rti, yielded @ [buffer rti], None)
      else Some (rti, yielded, None))"
| "process_chunks lib rti (chunk # rest) yielded =
     (case drain_buffer lib (rti\<lparr>buffer := buffer rti @ chunk\<rparr>) yielded of
        None \<Rightarrow> None
      | Some (rti', yielded', Some e) \<Rightarrow> Some (rti', yielded', Some e)
      | Some (rti', yielded', None) \<Rightarrow> process_chunks lib rti' rest yielded')"

definition process_stream ::
  "'r numlib \<Rightarrow> 'r injector \<Rightarrow> real list list
     \<Rightarrow> ('r injector \<times> real list list \<times> error option) option" where
  "process_stream lib rti audio_stream = process_chunks lib rti audio_stream []"

section \<open>Hamming(7,4): encoding, decoding and single-error correction\<close>

lemma bit_cases: "a \<in> {0, 1::int} \<Longrightarrow> (a = 0 \<Longrightarrow> P) \<Longrightarrow> (a = 1 \<Longrightarrow> P) \<Longrightarrow> P"
  by auto

lemma bits4_cases:
  assumes "length d = 4" "set d \<subseteq> {0, 1::int}"
  obtains a b c e where "d = [a, b, c, e]" "a \<in> {0,1}" "b \<in> {0,1}" "c \<in> {0,1}" "e \<in> {0,1}"
proof -
  from assms(1) obtain a b c e where d: "d = [a, b, c, e]"
    by (auto simp: length_Suc_conv numeral_eq_Suc)
  with assms(2) show ?thesis using that by auto
qed

lemma all_less_7:
  "(\<forall>j<7. P (j::nat)) \<longleftrightarrow> P 0 \<and> P 1 \<and> P 2 \<and> P 3 \<and> P 4 \<and> P 5 \<and> P 6"
proof -
  have "j < 7 \<longleftrightarrow> j = 0 \<or> j = 1 \<or> j = 2 \<or> j = 3 \<or> j = 4 \<or> j = 5 \<or> j = 6" for j :: nat
    by arith
  then show ?thesis by auto
qed

lemma encode_hamming_nibble:
  "encode_hamming [a, b, c, e] = Inr (encode_block [a, b, c, e])"
  by (simp add: encode_hamming_def np_concatenate_def py_slice_def)

lemma decode_hamming_block:
  "length r = 7 \<Longrightarrow> decode_hamming r = Inr (decode_block r)"
  by (simp add: decode_hamming_def np_concatenate_def py_slice_def)

lemma encode_block_explicit:
  "encode_block [a, b, c, e] =
     [a mod 2, b mod 2, c mod 2, e mod 2,
      (a + b + e) mod 2, (a + c + e) mod 2, (b + c + e) mod 2]"
  by (simp add: encode_block_def vec_mat_def G_def dot_def transpose.simps add.assoc)

lemma syndrome_explicit:
  "syndrome [a, b, c, e, f, g, h] =
     (a + b + e + f) mod 2 + (a + c + e + g) mod 2 * 2 + (b + c + e + h) mod 2 * 4"
  by (simp add: syndrome_def mat_vec_def H_def dot_def add.assoc)

lemma codeword_syndrome:
  assumes "a \<in> {0,1::int}" "b \<in> {0,1}" "c \<in> {0,1}" "e \<in> {0,1}"
  shows "syndrome (encode_block [a, b, c, e]) = 0"
  using assms
  by (elim bit_cases) (simp_all add: encode_block_explicit syndrome_explicit)

lemma decode_encode_block:
  assumes "a \<in> {0,1::int}" "b \<in> {0,1}" "c \<in> {0,1}" "e \<in> {0,1}"
  shows "decode_block (encode_block [a, b, c, e]) = [a, b, c, e]"
  using assms
  by (elim bit_cases)
     (simp_all add: encode_block_explicit syndrome_explicit decode_block_def)

lemma decode_flipped_block:
  assumes "a \<in> {0,1::int}" "b \<in> {0,1}" "c \<in> {0,1}" "e \<in> {0,1}"
  shows "\<forall>j<7. decode_block ((encode_block [a, b, c, e])
                         [j := 1 - encode_block [a, b, c, e] ! j]) = [a, b, c, e]"
  using assms
  by (elim bit_cases)
     (simp_all add: encode_block_explicit syndrome_explicit decode_block_def
        syndrome_map_def all_less_7)

lemma syndrome_map_table:
  "syndrome_map = map_of [(1, 4), (2, 5), (3, 0), (4, 6), (5, 1), (6, 2), (7, 3)]"
  by (rule ext) (simp add: syndrome_map_def)

text \<open>
  Claim C5.  For every block \<open>d\<close> of four bits, the encoder returns a codeword of seven
  bits whose syndrome is 0, the decoder maps that codeword back to \<open>d\<close> without
  correcting anything, and it still returns \<open>d\<close> when any single one of the seven bits
  has been flipped.  The dictionary the decoder uses to find the flipped bit is the table
  \<open>{1:4, 2:5, 3:0, 4:6, 5:1, 6:2, 7:3}\<close>.
\<close>

theorem hamming_single_error_correction:
  assumes "length d = 4" and "set d \<subseteq> {0, 1}"
  shows "encode_hamming d = Inr (encode_block d)
       \<and> length (encode_block d) = 7
       \<and> syndrome (encode_block d) = 0
       \<and> decode_hamming (encode_block d) = Inr d
       \<and> (\<forall>j<7. decode_hamming ((encode_block d)[j := 1 - encode_block d ! j]) = Inr d)
       \<and> syndrome_map = map_of [(1, 4), (2, 5), (3, 0), (4, 6), (5, 1), (6, 2), (7, 3)]"
proof -
  from assms obtain a b c e where d: "d = [a, b, c, e]"
    and bits: "a \<in> {0,1}" "b \<in> {0,1}" "c \<in> {0,1}" "e \<in> {0,1}"
    by (rule bits4_cases)
  have len: "length (encode_block d) = 7"
    by (simp add: d encode_block_explicit)
  have enc: "encode_hamming d = Inr (encode_block d)"
    by (simp add: d encode_hamming_nibble)
  have syn: "syndrome (encode_block d) = 0"
    using bits by (simp add: d codeword_syndrome)
  have dec: "decode_hamming (encode_block d) = Inr d"
    using bits len by (simp add: decode_hamming_block) (simp add: d decode_encode_block)
  have flip: "\<forall>j<7. decode_hamming ((encode_block d)[j := 1 - encode_block d ! j]) = Inr d"
    using decode_flipped_block [OF bits] len by (simp add: decode_hamming_block d)
  from enc len syn dec flip syndrome_map_table show ?thesis
    by blast
qed

theorem hamming_single_error_correction_witness:
  "length [1, 0, 1, 1 :: int] = 4 \<and> set [1, 0, 1, 1 :: int] \<subseteq> {0, 1}
   \<and> encode_hamming [1, 0, 1, 1] = Inr [1, 0, 1, 1, 0, 1, 0]
   \<and> decode_hamming [1, 0, 1, 1, 0, 1, 0] = Inr [1, 0, 1, 1]
   \<and> decode_hamming [1, 0, 0, 1, 0, 1, 0] = Inr [1, 0, 1, 1]"
proof -
  have len: "length [1, 0, 1, 1 :: int] = 4" by simp
  have bits: "set [1, 0, 1, 1 :: int] \<subseteq> {0, 1}" by simp
  have cw: "encode_block [1, 0, 1, 1] = [1, 0, 1, 1, 0, 1, 0]"
    by (simp add: encode_block_explicit)
  note main = hamming_single_error_correction [OF len bits]
  from main have enc: "encode_hamming [1, 0, 1, 1] = Inr (encode_block [1, 0, 1, 1])"
    by blast
  from main have dec: "decode_hamming (encode_block [1, 0, 1, 1]) = Inr [1, 0, 1, 1]"
    by blast
  from main have "\<forall>j<7. decode_hamming ((encode_block [1, 0, 1, 1])
             [j := 1 - encode_block [1, 0, 1, 1] ! j]) = Inr [1, 0, 1, 1]"
    by blast
  then have "decode_hamming ((encode_block [1, 0, 1, 1])
             [2 := 1 - encode_block [1, 0, 1, 1] ! 2]) = Inr [1, 0, 1, 1]"
    by (rule allE [of _ 2]) simp
  then have flip: "decode_hamming [1, 0, 0, 1, 0, 1, 0] = Inr [1, 0, 1, 1]"
    by (simp add: cw)
  from enc dec have "encode_hamming [1, 0, 1, 1] = Inr [1, 0, 1, 1, 0, 1, 0]"
    and "decode_hamming [1, 0, 1, 1, 0, 1, 0] = Inr [1, 0, 1, 1]"
    by (simp_all add: cw)
  with len bits flip show ?thesis by simp
qed

section \<open>The stages of extraction return, and return bits\<close>

lemma numlib_ok_randint:
  "numlib_ok lib \<Longrightarrow> lo < hi \<Longrightarrow> length (fst (randint lib r lo hi n)) = n"
  "numlib_ok lib \<Longrightarrow> lo < hi \<Longrightarrow> x \<in> set (fst (randint lib r lo hi n))
     \<Longrightarrow> lo \<le> x \<and> x < hi"
  by (simp_all add: numlib_ok_def)

lemma numlib_ok_permutation:
  "numlib_ok lib \<Longrightarrow> length (fst (permutation lib r n)) = n"
  "numlib_ok lib \<Longrightarrow> set (fst (permutation lib r n)) = {0 ..< n}"
  by (simp_all add: numlib_ok_def)

lemma numlib_ok_lengths:
  "numlib_ok lib \<Longrightarrow> length (lfilter lib b a x) = length x"
  "numlib_ok lib \<Longrightarrow> length (convolve_same lib x w) = length x"
  "numlib_ok lib \<Longrightarrow> length (uniform_filter1d lib x s) = length x"
  "numlib_ok lib \<Longrightarrow> length (rfft lib x n) = n div 2 + 1"
  "numlib_ok lib \<Longrightarrow> length (irfft lib X n) = n"
  by (simp_all add: numlib_ok_def)

lemma length_generate_pn_sequence:
  "numlib_ok lib \<Longrightarrow> length (fst (generate_pn_sequence lib self n)) = n"
  by (simp add: generate_pn_sequence_def Let_def numlib_ok_randint)

lemma length_apply_bandpass:
  "numlib_ok lib \<Longrightarrow> length (apply_bandpass lib self x) = length x"
  by (simp add: apply_bandpass_def Let_def numlib_ok_lengths split: prod.split)

lemma length_preamble_bits: "length preamble_bits = 16"
  by (simp add: preamble_bits_def)

lemma length_payload_pn:
  "numlib_ok lib \<Longrightarrow> length (payload_pn lib self) = 70 * chip_rate self"
  by (simp add: payload_pn_def Let_def length_apply_bandpass numlib_ok_lengths
      length_generate_pn_sequence py_slice_def length_preamble_bits)

lemma demodulate_ok:
  assumes "numlib_ok lib" "fsi + 86 * chip_rate self \<le> length fa"
  shows "\<exists>raw. demodulate lib self fa fsi pol = Inr raw \<and> length raw = 70 \<and> set raw \<subseteq> {0, 1}"
proof -
  have "length (py_slice fa (fsi + 16 * chip_rate self) (fsi + 16 * chip_rate self + 70 * chip_rate self))
          = 70 * chip_rate self"
    using assms(2) by (simp add: py_slice_def)
  then show ?thesis
    using assms(1)
    by (auto simp: demodulate_def Let_def np_mul_def length_payload_pn length_preamble_bits)
qed

lemma set_np_argsort: "set (np_argsort xs) = {0 ..< length xs}"
proof -
  have "map snd (zip xs [0 ..< length xs]) = [0 ..< length xs]"
    by (rule map_snd_zip) simp
  then have "snd ` set (zip xs [0 ..< length xs]) = set [0 ..< length xs]"
    by (metis set_map)
  then show ?thesis
    by (simp add: np_argsort_def)
qed

lemma length_np_argsort: "length (np_argsort xs) = length xs"
  by (simp add: np_argsort_def)

lemma deinterleave_ok:
  assumes "numlib_ok lib" "set raw \<subseteq> {0, 1}"
  shows "\<exists>d. deinterleave lib raw = Inr d \<and> length d = length raw \<and> set d \<subseteq> {0, 1}"
proof -
  let ?p = "fst (permutation lib (RandomState lib 0xDEADBEEF) (length raw))"
  have len: "length ?p = length raw"
    using assms(1) by (rule numlib_ok_permutation)
  have idx: "set (np_argsort ?p) = {0 ..< length raw}"
    by (simp add: set_np_argsort len)
  have eq: "deinterleave lib raw = Inr (map (\<lambda>i. raw ! i) (np_argsort ?p))"
    by (simp add: deinterleave_def Let_def np_take_def idx)
  have "raw ! i \<in> {0, 1}" if "i \<in> set (np_argsort ?p)" for i
  proof -
    from that idx have "i < length raw" by simp
    then have "raw ! i \<in> set raw" by (rule nth_mem)
    with assms(2) show ?thesis by blast
  qed
  then have bits: "set (map (\<lambda>i. raw ! i) (np_argsort ?p)) \<subseteq> {0, 1}"
    by (simp add: image_subset_iff)
  have "length (map (\<lambda>i. raw ! i) (np_argsort ?p)) = length raw"
    by (simp add: length_np_argsort len)
  with eq bits show ?thesis by blast
qed


lemma length_decode_block: "length block = 7 \<Longrightarrow> length (decode_block block) = 4"
  by (simp add: decode_block_def Let_def split: option.split)

lemma set_decode_block:
  assumes "set block \<subseteq> {0, 1}"
  shows "set (decode_block block) \<subseteq> {0, 1}"
proof -
  have upd: "set (block[i := 1 - block ! i]) \<subseteq> {0, 1}" for i
  proof (cases "i < length block")
    case True
    then have "block ! i \<in> {0, 1}" using assms nth_mem by blast
    then have "1 - block ! i \<in> {0, 1}" by auto
    with assms show ?thesis
      using set_update_subset_insert [of block i "1 - block ! i"] by blast
  next
    case False
    then show ?thesis using assms by (simp add: list_update_beyond)
  qed
  have "set (take 4 xs) \<subseteq> {0, 1}" if "set xs \<subseteq> {0, 1::int}" for xs
    using that set_take_subset [of 4 xs] by blast
  then show ?thesis
    using assms upd by (simp add: decode_block_def Let_def split: option.split)
qed

lemma length_concat_blocks:
  assumes "\<And>i. i < k \<Longrightarrow> length (f i) = m"
  shows "length (concat (map f [0 ..< k])) = m * k"
  using assms by (induction k) (simp_all add: algebra_simps)

lemma set_slice_subset: "set (py_slice xs a b) \<subseteq> set xs"
  unfolding py_slice_def using set_take_subset set_drop_subset by fast

lemma length_slice_block:
  "(i + 1) * m \<le> length xs \<Longrightarrow> length (py_slice xs (i * m) ((i + 1) * m)) = m"
  by (simp add: py_slice_def algebra_simps)

lemma decode_hamming_ok:
  assumes "length bits = 7 * k" "0 < k" "set bits \<subseteq> {0, 1}"
  shows "\<exists>d. decode_hamming bits = Inr d \<and> length d = 4 * k \<and> set d \<subseteq> {0, 1}"
proof -
  let ?f = "\<lambda>i. decode_block (py_slice bits (i * 7) ((i + 1) * 7))"
  have k: "length bits div 7 = k" "length bits mod 7 = 0"
    using assms(1) by simp_all
  have eq: "decode_hamming bits = Inr (concat (map ?f [0 ..< k]))"
    using assms(2) by (simp add: decode_hamming_def np_concatenate_def k)
  have "length (?f i) = 4" if "i < k" for i
  proof -
    from that assms(1) have "(i + 1) * 7 \<le> length bits" by simp
    then have "length (py_slice bits (i * 7) ((i + 1) * 7)) = 7"
      by (rule length_slice_block)
    then show ?thesis by (rule length_decode_block)
  qed
  then have len: "length (concat (map ?f [0 ..< k])) = 4 * k"
    by (rule length_concat_blocks)
  have "set (?f i) \<subseteq> {0, 1}" for i
    using assms(3) set_slice_subset [of bits] by (intro set_decode_block) blast
  then have "set (concat (map ?f [0 ..< k])) \<subseteq> {0, 1}"
    by auto
  with eq len show ?thesis by blast
qed

lemma decoded_bits_ok:
  assumes "numlib_ok lib" "fsi + 86 * chip_rate self \<le> length fa"
  shows "\<exists>d. decoded_bits lib self fa fsi pol = Inr d \<and> length d = 40 \<and> set d \<subseteq> {0, 1}"
proof -
  from demodulate_ok [OF assms] obtain raw where
    raw: "demodulate lib self fa fsi pol = Inr raw" "length raw = 70" "set raw \<subseteq> {0, 1}"
    by blast
  from deinterleave_ok [OF assms(1) raw(3)] obtain di where
    di: "deinterleave lib raw = Inr di" "length di = length raw" "set di \<subseteq> {0, 1}"
    by blast
  have "length di = 7 * 10" using di(2) raw(2) by simp
  from decode_hamming_ok [OF this _ di(3)] obtain d where
    "decode_hamming di = Inr d" "length d = 4 * 10" "set d \<subseteq> {0, 1}"
    by auto
  with raw(1) di(1) show ?thesis
    by (simp add: decoded_bits_def)
qed

section \<open>The bit codec and the integrity gate\<close>

lemma and_255_eq_mod: "(x::int) AND 0xFF = x mod 256"
proof -
  have "(0xFF::int) = mask 8" by (simp add: mask_eq_exp_minus_1)
  then have "x AND 0xFF = take_bit 8 x" by (simp only: take_bit_eq_mask)
  then show ?thesis by (simp add: take_bit_eq_mod)
qed

lemma and_low28_eq_mod: "(x::int) AND 0x0FFFFFFF = x mod 2 ^ 28"
proof -
  have "(0x0FFFFFFF::int) = mask 28" by (simp add: mask_eq_exp_minus_1)
  then have "x AND 0x0FFFFFFF = take_bit 28 x" by (simp only: take_bit_eq_mask)
  then show ?thesis by (simp add: take_bit_eq_mod)
qed

lemma to_bytes4_ok:
  assumes "0 \<le> v" "v < 2 ^ 32"
  shows "to_bytes4 v = Inr [v div 2 ^ 24 mod 256, v div 2 ^ 16 mod 256, v div 2 ^ 8 mod 256, v mod 256]"
  using assms by (simp add: to_bytes4_def and_255_eq_mod drop_bit_eq_div)

lemma shift_or_bit:
  assumes "b \<in> {0, 1::int}"
  shows "push_bit 1 v OR (if real_of_int b > 0.5 then 1 else 0) = 2 * v + b"
  using assms by (auto simp: or_one_eq)

lemma foldl_shift_range:
  assumes f: "\<And>v b. b \<in> {0, 1} \<Longrightarrow> f v b = 2 * v + (b::int)"
    and "set bits \<subseteq> {0, 1}" "0 \<le> (acc::int)" "acc < 2 ^ k"
  shows "0 \<le> foldl f acc bits \<and> foldl f acc bits < 2 ^ (k + length bits)"
  using assms(2-)
proof (induction bits arbitrary: acc k)
  case Nil
  then show ?case by simp
next
  case (Cons b bits)
  from Cons.prems(1) have b: "b \<in> {0, 1}" and rest: "set bits \<subseteq> {0, 1}" by auto
  have step: "f acc b = 2 * acc + b"
    using b by (rule f)
  have lo: "0 \<le> 2 * acc + b" using b Cons.prems(2) by auto
  have hi: "2 * acc + b < 2 ^ Suc k" using b Cons.prems(3) by auto
  from Cons.IH [OF rest lo hi] show ?case
    by (simp add: step)
qed

lemma bits_to_int_range:
  assumes "set bits \<subseteq> {0, 1}"
  shows "0 \<le> bits_to_int bits" and "bits_to_int bits < 2 ^ length bits"
proof -
  let ?f = "\<lambda>val bit. push_bit 1 val OR (if real_of_int bit > 0.5 then 1 else (0::int))"
  have "0 \<le> foldl ?f 0 bits \<and> foldl ?f 0 bits < 2 ^ (0 + length bits)"
    by (rule foldl_shift_range [where f = ?f, OF shift_or_bit assms]) simp_all
  then show "0 \<le> bits_to_int bits" and "bits_to_int bits < 2 ^ length bits"
    by (simp_all add: bits_to_int_def)
qed

lemma verify_payload_eq:
  assumes "length d = 40" "set d \<subseteq> {0, 1}"
  shows "verify_payload d =
           Inr (if crc8 [bits_to_int (take 32 d) div 2 ^ 24 mod 256,
                         bits_to_int (take 32 d) div 2 ^ 16 mod 256,
                         bits_to_int (take 32 d) div 2 ^ 8 mod 256,
                         bits_to_int (take 32 d) mod 256] = bits_to_int (drop 32 d)
                then Some (bits_to_int (take 32 d) mod 2 ^ 28) else None)"
proof -
  define p where "p = bits_to_int (take 32 d)"
  have bits: "set (take 32 d) \<subseteq> {0, 1}"
    using assms(2) set_take_subset [of 32 d] by blast
  have "length (take 32 d) = 32" using assms(1) by simp
  with bits_to_int_range [OF bits]
  have "0 \<le> p" "p < 2 ^ 32"
    unfolding p_def by simp_all
  then have tb: "to_bytes4 p = Inr [p div 2 ^ 24 mod 256, p div 2 ^ 16 mod 256, p div 2 ^ 8 mod 256, p mod 256]"
    by (rule to_bytes4_ok)
  have "verify_payload d =
          (case to_bytes4 p of Inl e \<Rightarrow> Inl e
           | Inr payload_bytes \<Rightarrow>
               if crc8 payload_bytes = bits_to_int (drop 32 d)
               then Inr (Some (p AND 0x0FFFFFFF)) else Inr None)"
    unfolding verify_payload_def Let_def p_def
    by (simp only: assms(1) simp_thms if_False)
  also have "\<dots> = Inr (if crc8 [p div 2 ^ 24 mod 256, p div 2 ^ 16 mod 256, p div 2 ^ 8 mod 256, p mod 256]
                           = bits_to_int (drop 32 d)
                        then Some (p mod 2 ^ 28) else None)"
    unfolding tb and_low28_eq_mod by (simp only: sum.case if_distrib [of Inr] if_cancel)
  finally show ?thesis unfolding p_def .
qed

section \<open>The CRC gate of the extractor\<close>

lemma toy_numlib_ok: "numlib_ok toy_numlib"
  by (auto simp: numlib_ok_def toy_numlib_def)

lemma gate_result_cases:
  "(Inr (if c then Some a else None) :: error + int option) = Inr None
   \<or> (Inr (if c then Some a else None) :: error + int option) = Inr (Some a)"
  by (cases c) simp_all

text \<open>
  Claim C2.  Once the frame is located, \<^verbatim>\<open>extract\<close> returns the none sentinel when the
  payload window \<open>[final_start_index + 16\<cdot>chip_rate, final_start_index + 86\<cdot>chip_rate)\<close>
  reaches past the end of the audio.  Otherwise the demodulator, the de-interleaver and the
  Hamming decoder deliver 40 bits, and the result is an identifier exactly when the CRC-8
  of the four big-endian bytes of the 32 payload bits equals the 8 CRC bits; the identifier
  is the payload reduced to its low 28 bits, and a mismatch gives the none sentinel.  In
  neither case is an exception raised.
\<close>

theorem crc_gate:
  assumes "numlib_ok lib"
  shows "(length final_audio < final_start_index + 16 * chip_rate self + 70 * chip_rate self \<longrightarrow>
            extract_from_sync lib self final_audio final_start_index polarity_sign = Inr None)
       \<and> (final_start_index + 16 * chip_rate self + 70 * chip_rate self \<le> length final_audio \<longrightarrow>
            (\<exists>d. decoded_bits lib self final_audio final_start_index polarity_sign = Inr d
                 \<and> length d = 40
                 \<and> extract_from_sync lib self final_audio final_start_index polarity_sign =
                     Inr (if crc8 [bits_to_int (take 32 d) div 2 ^ 24 mod 256,
                                   bits_to_int (take 32 d) div 2 ^ 16 mod 256,
                                   bits_to_int (take 32 d) div 2 ^ 8 mod 256,
                                   bits_to_int (take 32 d) mod 256] = bits_to_int (drop 32 d)
                          then Some (bits_to_int (take 32 d) mod 2 ^ 28) else None)))
       \<and> (\<forall>e. extract_from_sync lib self final_audio final_start_index polarity_sign \<noteq> Inl e)
       \<and> (\<forall>cid. extract_from_sync lib self final_audio final_start_index polarity_sign = Inr (Some cid)
              \<longrightarrow> 0 \<le> cid \<and> cid < 2 ^ 28)"
proof -
  let ?ex = "extract_from_sync lib self final_audio final_start_index polarity_sign"
  let ?w = "final_start_index + 16 * chip_rate self + 70 * chip_rate self"
  define R :: "int list \<Rightarrow> error + int option" where
    "R d = Inr (if crc8 [bits_to_int (take 32 d) div 2 ^ 24 mod 256,
                        bits_to_int (take 32 d) div 2 ^ 16 mod 256,
                        bits_to_int (take 32 d) div 2 ^ 8 mod 256,
                        bits_to_int (take 32 d) mod 256] = bits_to_int (drop 32 d)
               then Some (bits_to_int (take 32 d) mod 2 ^ 28) else None)" for d
  have R_cases: "R d = Inr None \<or> R d = Inr (Some (bits_to_int (take 32 d) mod 2 ^ 28))" for d
    unfolding R_def by (rule gate_result_cases)
  have short: "?ex = Inr None" if "length final_audio < ?w"
    using that by (simp add: extract_from_sync_def Let_def length_preamble_bits)
  have fits: "\<exists>d. decoded_bits lib self final_audio final_start_index polarity_sign = Inr d
                 \<and> length d = 40 \<and> ?ex = R d"
    if w: "?w \<le> length final_audio"
  proof -
    from w have "final_start_index + 86 * chip_rate self \<le> length final_audio" by simp
    from decoded_bits_ok [OF assms this] obtain d where
      d: "decoded_bits lib self final_audio final_start_index polarity_sign = Inr d"
         "length d = 40" "set d \<subseteq> {0, 1}"
      by blast
    have "?ex = verify_payload d"
      using w d(1) by (simp add: extract_from_sync_def Let_def length_preamble_bits)
    also have "\<dots> = R d"
      unfolding R_def by (rule verify_payload_eq [OF d(2,3)])
    finally show ?thesis using d(1,2) by blast
  qed
  have noerr: "?ex \<noteq> Inl e" for e
  proof (cases "length final_audio < ?w")
    case True
    then have "?ex = Inr None" by (rule short)
    then show ?thesis by simp
  next
    case False
    then have "?w \<le> length final_audio" by simp
    from fits [OF this] obtain d where "?ex = R d" by blast
    with R_cases [of d] show ?thesis by auto
  qed
  have range: "0 \<le> cid \<and> cid < 2 ^ 28" if ex: "?ex = Inr (Some cid)" for cid
  proof (cases "length final_audio < ?w")
    case True
    then have "?ex = Inr None" by (rule short)
    with ex show ?thesis by simp
  next
    case False
    then have "?w \<le> length final_audio" by simp
    from fits [OF this] obtain d where "?ex = R d" by blast
    with R_cases [of d] ex have "cid = bits_to_int (take 32 d) mod 2 ^ 28" by auto
    then show ?thesis by simp
  qed
  show ?thesis
  proof (intro conjI impI allI)
    assume "length final_audio < ?w"
    then show "?ex = Inr None" by (rule short)
  next
    assume "?w \<le> length final_audio"
    from fits [OF this] show "\<exists>d. decoded_bits lib self final_audio final_start_index polarity_sign = Inr d
                 \<and> length d = 40
                 \<and> ?ex =
                     Inr (if crc8 [bits_to_int (take 32 d) div 2 ^ 24 mod 256,
                                   bits_to_int (take 32 d) div 2 ^ 16 mod 256,
                                   bits_to_int (take 32 d) div 2 ^ 8 mod 256,
                                   bits_to_int (take 32 d) mod 256] = bits_to_int (drop 32 d)
                          then Some (bits_to_int (take 32 d) mod 2 ^ 28) else None)"
      unfolding R_def .
  next
    fix e show "?ex \<noteq> Inl e" by (rule noerr)
  next
    fix cid assume "?ex = Inr (Some cid)"
    then show "0 \<le> cid" using range by blast
  next
    fix cid assume "?ex = Inr (Some cid)"
    then show "cid < 2 ^ 28" using range by blast
  qed
qed


lemma toy_deepseal_fields:
  "chip_rate toy_deepseal = 1" "telecom_mode toy_deepseal = False" "seed toy_deepseal = 42"
  by (simp_all add: toy_deepseal_def)

lemma toy_demod: "demodulate toy_numlib toy_deepseal (replicate 86 0) 0 1 = Inr (replicate 70 0)"
proof -
  have len: "length (payload_pn toy_numlib toy_deepseal) = 70"
    using length_payload_pn [OF toy_numlib_ok, of toy_deepseal] by (simp add: toy_deepseal_fields)
  have sl: "py_slice (replicate 86 (0::real)) 16 86 = replicate 70 0"
    by (simp add: py_slice_def sum_list_replicate)
  have z: "map2 (*) (replicate 70 (0::real)) ys = replicate 70 0" if "length ys = 70" for ys
    using that by (simp add: list_eq_iff_nth_eq)
  have s0: "sum_list (py_slice (replicate 70 (0::real)) a b) = 0" for a b
    by (simp add: py_slice_def sum_list_replicate)
  show ?thesis
    by (simp add: demodulate_def Let_def length_preamble_bits toy_deepseal_fields np_mul_def
        len sl z s0 map_replicate_const)
qed


lemma deinterleave_eq:
  assumes "numlib_ok lib"
  shows "deinterleave lib raw =
           Inr (map (\<lambda>i. raw ! i)
                  (np_argsort (fst (permutation lib (RandomState lib 0xDEADBEEF) (length raw)))))"
proof -
  let ?p = "fst (permutation lib (RandomState lib 0xDEADBEEF) (length raw))"
  have len: "length ?p = length raw"
    using assms by (rule numlib_ok_permutation)
  have idx: "set (np_argsort ?p) = {0 ..< length raw}"
    by (simp add: set_np_argsort len)
  show ?thesis
    by (simp add: deinterleave_def Let_def np_take_def idx)
qed

lemma map_const_on_set:
  "(\<And>x. x \<in> set xs \<Longrightarrow> f x = c) \<Longrightarrow> map f xs = replicate (length xs) c"
  by (induction xs) simp_all

lemma toy_deinterleave: "deinterleave toy_numlib (replicate 70 0) = Inr (replicate 70 0)"
proof -
  let ?idx = "np_argsort (fst (permutation toy_numlib (RandomState toy_numlib 0xDEADBEEF) 70))"
  have len: "length ?idx = 70"
    by (simp add: length_np_argsort numlib_ok_permutation [OF toy_numlib_ok])
  have idx: "set ?idx = {0 ..< 70}"
    by (simp add: set_np_argsort numlib_ok_permutation [OF toy_numlib_ok])
  have "map (\<lambda>i. replicate 70 (0::int) ! i) ?idx = replicate (length ?idx) 0"
    by (rule map_const_on_set) (simp add: idx)
  then have "map (\<lambda>i. replicate 70 (0::int) ! i) ?idx = replicate 70 0"
    by (simp only: len)
  then show ?thesis
    by (simp add: deinterleave_eq [OF toy_numlib_ok])
qed

lemma toy_decode: "decode_hamming (replicate 70 0) = Inr (replicate 40 0)"
  by code_simp

lemma toy_decoded_bits:
  "decoded_bits toy_numlib toy_deepseal (replicate 86 0) 0 1 = Inr (replicate 40 0)"
  by (simp add: decoded_bits_def toy_demod toy_deinterleave toy_decode)

lemma bits_to_int_zeros: "bits_to_int (replicate n 0) = 0"
proof -
  have "foldl (\<lambda>val bit. push_bit 1 val OR (if real_of_int bit > 0.5 then 1 else 0)) 0
          (replicate n 0) = (0::int)"
    by (induction n) simp_all
  then show ?thesis by (simp add: bits_to_int_def)
qed

lemma crc8_zero_bytes: "crc8 [0, 0, 0, 0] = 0"
  by code_simp


theorem crc_gate_witness:
  "numlib_ok toy_numlib
   \<and> length (replicate 85 (0::real)) < 0 + 16 * chip_rate toy_deepseal + 70 * chip_rate toy_deepseal
   \<and> extract_from_sync toy_numlib toy_deepseal (replicate 85 0) 0 1 = Inr None
   \<and> 0 + 16 * chip_rate toy_deepseal + 70 * chip_rate toy_deepseal \<le> length (replicate 86 (0::real))
   \<and> decoded_bits toy_numlib toy_deepseal (replicate 86 0) 0 1 = Inr (replicate 40 0)
   \<and> extract_from_sync toy_numlib toy_deepseal (replicate 86 0) 0 1 = Inr (Some 0)"
proof -
  note gate = crc_gate [OF toy_numlib_ok, of _ 0 toy_deepseal 1]
  have short: "length (replicate 85 (0::real))
                 < 0 + 16 * chip_rate toy_deepseal + 70 * chip_rate toy_deepseal"
    by (simp add: toy_deepseal_fields)
  with gate [of "replicate 85 0"]
  have none: "extract_from_sync toy_numlib toy_deepseal (replicate 85 0) 0 1 = Inr None"
    by blast
  have fits: "0 + 16 * chip_rate toy_deepseal + 70 * chip_rate toy_deepseal
                \<le> length (replicate 86 (0::real))"
    by (simp add: toy_deepseal_fields)
  with gate [of "replicate 86 0"] obtain d where
    d: "decoded_bits toy_numlib toy_deepseal (replicate 86 0) 0 1 = Inr d"
    and ex: "extract_from_sync toy_numlib toy_deepseal (replicate 86 0) 0 1 =
               Inr (if crc8 [bits_to_int (take 32 d) div 2 ^ 24 mod 256,
                             bits_to_int (take 32 d) div 2 ^ 16 mod 256,
                             bits_to_int (take 32 d) div 2 ^ 8 mod 256,
                             bits_to_int (take 32 d) mod 256] = bits_to_int (drop 32 d)
                    then Some (bits_to_int (take 32 d) mod 2 ^ 28) else None)"
    by blast
  from d have "d = replicate 40 0"
    by (simp add: toy_decoded_bits)
  with ex have some: "extract_from_sync toy_numlib toy_deepseal (replicate 86 0) 0 1 = Inr (Some 0)"
    by (simp add: bits_to_int_zeros crc8_zero_bytes)
  from toy_numlib_ok short none fits toy_decoded_bits some show ?thesis
    by (intro conjI)
qed

section \<open>The version field is not checked\<close>

lemma length_int_to_bits: "length (int_to_bits x n) = n"
  by (simp add: int_to_bits_def)

lemma set_int_to_bits: "set (int_to_bits x n) \<subseteq> {0, 1}"
  by (auto simp: int_to_bits_def and_one_eq)

lemma int_to_bits_Suc:
  "int_to_bits x (Suc n) = (drop_bit n x AND 1) # int_to_bits x n"
  by (simp add: int_to_bits_def)

lemma foldl_shift_int_to_bits:
  assumes f: "\<And>v b. b \<in> {0, 1} \<Longrightarrow> f v b = 2 * v + (b::int)"
  shows "foldl f acc (int_to_bits x n) = acc * 2 ^ n + take_bit n x"
proof (induction n arbitrary: acc)
  case 0
  then show ?case by (simp add: int_to_bits_def)
next
  case (Suc n)
  have b: "drop_bit n x AND 1 \<in> {0, 1}"
    by (auto simp: and_one_eq)
  have bit: "drop_bit n x AND 1 = of_bool (bit x n)"
    by (simp add: and_one_eq bit_iff_odd_drop_bit mod_2_eq_odd)
  have "foldl f acc (int_to_bits x (Suc n)) = foldl f (2 * acc + (drop_bit n x AND 1)) (int_to_bits x n)"
    by (simp add: int_to_bits_Suc f [OF b])
  also have "\<dots> = (2 * acc + (drop_bit n x AND 1)) * 2 ^ n + take_bit n x"
    by (rule Suc.IH)
  also have "\<dots> = acc * 2 ^ Suc n + (2 ^ n * of_bool (bit x n) + take_bit n x)"
    by (simp add: bit algebra_simps)
  also have "2 ^ n * of_bool (bit x n) + take_bit n x = take_bit (Suc n) x"
    by (simp add: take_bit_Suc_from_most)
  finally show ?case .
qed

lemma bits_to_int_int_to_bits:
  assumes "0 \<le> x" "x < 2 ^ n"
  shows "bits_to_int (int_to_bits x n) = x"
proof -
  let ?f = "\<lambda>val bit. push_bit 1 val OR (if real_of_int bit > 0.5 then 1 else (0::int))"
  have "foldl ?f 0 (int_to_bits x n) = 0 * 2 ^ n + take_bit n x"
    by (rule foldl_shift_int_to_bits [where f = ?f, OF shift_or_bit])
  moreover have "take_bit n x = x"
    using assms by (simp add: take_bit_int_eq_self)
  ultimately show ?thesis by (simp add: bits_to_int_def)
qed

lemma crc8_step_range: "0 \<le> crc8_step c \<and> crc8_step c < 256"
  by (simp add: crc8_step_def and_255_eq_mod)

lemma crc8_range: "0 \<le> crc8 bs \<and> crc8 bs < 2 ^ 8"
proof (cases bs rule: rev_cases)
  case Nil
  then show ?thesis by (simp add: crc8_def)
next
  case (snoc xs x)
  have "crc8 bs = crc8_step ((crc8_step ^^ 7) (foldl crc8_byte 0 xs XOR x))"
    by (simp add: snoc crc8_def crc8_byte_def numeral_eq_Suc)
  with crc8_step_range show ?thesis by simp
qed

lemma versioned_payload:
  assumes "0 \<le> v" "v < 16" "0 \<le> cid" "cid < 2 ^ 28"
  shows "0 \<le> push_bit 28 v OR cid" "push_bit 28 v OR cid < 2 ^ 32"
    "(push_bit 28 v OR cid) mod 2 ^ 28 = (cid::int)"
proof -
  show "0 \<le> push_bit 28 v OR cid"
    using assms by simp
  have "push_bit 28 v < (2::int) ^ 32"
    using assms(2) by (simp add: push_bit_eq_mult)
  moreover have "cid < 2 ^ 32" using assms(4) by simp
  ultimately show "push_bit 28 v OR cid < 2 ^ 32"
    using assms(1,3) by (intro OR_upper) simp_all
  have "take_bit 28 (push_bit 28 v OR cid) = take_bit 28 cid"
    by (simp add: take_bit_push_bit)
  also have "\<dots> = cid"
    using assms(3,4) by (simp add: take_bit_int_eq_self)
  finally show "(push_bit 28 v OR cid) mod 2 ^ 28 = cid"
    by (simp add: take_bit_eq_mod)
qed


lemma extract_from_sync_fits:
  assumes "final_start_index + 16 * chip_rate self + 70 * chip_rate self \<le> length final_audio"
    and "decoded_bits lib self final_audio final_start_index polarity_sign = Inr d"
  shows "extract_from_sync lib self final_audio final_start_index polarity_sign = verify_payload d"
  using assms by (simp add: extract_from_sync_def Let_def length_preamble_bits)

lemma int_to_bits_zero: "int_to_bits 0 n = replicate n 0"
  by (simp add: int_to_bits_def map_replicate_const)

text \<open>
  Claim C10.  The extractor does not look at the version field.  Whatever the four version
  bits \<open>v\<close> are, when the 40 decoded bits are the 32 bits of the payload
  \<open>(v << 28) | cid\<close> followed by the 8 bits of its CRC-8, \<^verbatim>\<open>extract\<close> accepts the frame and
  returns the content identifier \<open>cid\<close>, the low 28 bits of the payload.  The embedder
  only ever writes version 1.
\<close>

theorem version_not_validated:
  assumes "0 \<le> v" and "v < 16" and "0 \<le> cid" and "cid < 2 ^ 28"
    and "final_start_index + 16 * chip_rate self + 70 * chip_rate self \<le> length final_audio"
    and "decoded_bits lib self final_audio final_start_index polarity_sign =
           Inr (int_to_bits (push_bit 28 v OR cid) 32
                @ int_to_bits (crc8 [(push_bit 28 v OR cid) div 2 ^ 24 mod 256,
                                     (push_bit 28 v OR cid) div 2 ^ 16 mod 256,
                                     (push_bit 28 v OR cid) div 2 ^ 8 mod 256,
                                     (push_bit 28 v OR cid) mod 256]) 8)"
  shows "extract_from_sync lib self final_audio final_start_index polarity_sign = Inr (Some cid)"
proof -
  define p where "p = push_bit 28 v OR cid"
  define c where "c = crc8 [p div 2 ^ 24 mod 256, p div 2 ^ 16 mod 256, p div 2 ^ 8 mod 256, p mod 256]"
  define d where "d = int_to_bits p 32 @ int_to_bits c 8"
  have p: "0 \<le> p" "p < 2 ^ 32" "p mod 2 ^ 28 = cid"
    unfolding p_def using assms(1-4) by (rule versioned_payload)+
  have c: "0 \<le> c" "c < 2 ^ 8"
    unfolding c_def using crc8_range by blast+
  have len: "length d = 40"
    by (simp add: d_def length_int_to_bits)
  have bits: "set d \<subseteq> {0, 1}"
    using set_int_to_bits [of p 32] set_int_to_bits [of c 8] by (simp add: d_def)
  have tk: "take 32 d = int_to_bits p 32" and dr: "drop 32 d = int_to_bits c 8"
    by (simp_all add: d_def length_int_to_bits)
  have pb: "bits_to_int (take 32 d) = p"
    unfolding tk using p(1,2) by (rule bits_to_int_int_to_bits)
  have cb: "bits_to_int (drop 32 d) = c"
    unfolding dr using c by (rule bits_to_int_int_to_bits)
  have "extract_from_sync lib self final_audio final_start_index polarity_sign = verify_payload d"
    using assms(5) assms(6) [folded p_def, folded c_def, folded d_def]
    by (rule extract_from_sync_fits)
  also have "\<dots> = Inr (if crc8 [p div 2 ^ 24 mod 256, p div 2 ^ 16 mod 256,
                                  p div 2 ^ 8 mod 256, p mod 256] = c
                        then Some (p mod 2 ^ 28) else None)"
    using verify_payload_eq [OF len bits] unfolding pb cb .
  also have "\<dots> = Inr (Some cid)"
    by (simp only: c_def [symmetric] p(3) if_True simp_thms)
  finally show ?thesis .
qed

theorem version_not_validated_witness:
  "(0::int) \<le> 0 \<and> (0::int) < 16 \<and> (0::int) < 2 ^ 28
   \<and> 0 + 16 * chip_rate toy_deepseal + 70 * chip_rate toy_deepseal \<le> length (replicate 86 (0::real))
   \<and> decoded_bits toy_numlib toy_deepseal (replicate 86 0) 0 1 =
        Inr (int_to_bits (push_bit 28 0 OR 0) 32 @ int_to_bits (crc8 [0, 0, 0, 0]) 8)
   \<and> push_bit 28 (0::int) OR 0 \<noteq> push_bit 28 1 OR 0
   \<and> extract_from_sync toy_numlib toy_deepseal (replicate 86 0) 0 1 = Inr (Some 0)"
proof -
  have fits: "0 + 16 * chip_rate toy_deepseal + 70 * chip_rate toy_deepseal
                \<le> length (replicate 86 (0::real))"
    by (simp add: toy_deepseal_fields)
  have zeros: "int_to_bits (push_bit 28 0 OR 0) 32 @ int_to_bits (crc8 [0, 0, 0, 0]) 8
                 = replicate 40 0"
    by (simp add: crc8_zero_bytes int_to_bits_zero flip: replicate_add)
  have dec: "decoded_bits toy_numlib toy_deepseal (replicate 86 0) 0 1 =
               Inr (int_to_bits (push_bit 28 0 OR 0) 32 @ int_to_bits (crc8 [0, 0, 0, 0]) 8)"
    unfolding zeros by (rule toy_decoded_bits)
  have dec': "decoded_bits toy_numlib toy_deepseal (replicate 86 0) 0 1 =
           Inr (int_to_bits (push_bit 28 0 OR 0) 32
                @ int_to_bits (crc8 [(push_bit 28 0 OR 0) div 2 ^ 24 mod 256,
                                     (push_bit 28 0 OR 0) div 2 ^ 16 mod 256,
                                     (push_bit 28 0 OR 0) div 2 ^ 8 mod 256,
                                     (push_bit 28 0 OR 0) mod 256]) 8)"
    using dec by simp
  have "extract_from_sync toy_numlib toy_deepseal (replicate 86 0) 0 1 = Inr (Some 0)"
    by (rule version_not_validated [OF _ _ _ _ fits dec']) simp_all
  moreover have "push_bit 28 (0::int) OR 0 \<noteq> push_bit 28 1 OR 0"
    by simp
  ultimately show ?thesis using fits dec by simp
qed

section \<open>The PN generator\<close>

lemma generate_pn_sequence_values:
  assumes "numlib_ok lib"
  shows "set (fst (generate_pn_sequence lib self n)) \<subseteq> {- 1, 1}"
proof
  fix y assume "y \<in> set (fst (generate_pn_sequence lib self n))"
  then obtain x where x: "x \<in> set (fst (randint lib (RandomState lib (seed self)) 0 2 n))"
    and y: "y = real_of_int (x * 2 - 1)"
    by (auto simp: generate_pn_sequence_def Let_def)
  from numlib_ok_randint(2) [OF assms _ x] have "x = 0 \<or> x = 1" by auto
  with y show "y \<in> {- 1, 1}" by auto
qed

text \<open>
  Claim C9.  \<^verbatim>\<open>generate_pn_sequence(n)\<close> returns exactly \<open>n\<close> elements, each of them
  \<open>-1.0\<close> or \<open>+1.0\<close>.  It leaves the object as it found it, the stored generator
  included.  The sequence depends on the seed and the length only: a second call on the
  same object returns the same sequence, and so does a call on any other object with the
  same seed.
\<close>

theorem generate_pn_contract:
  assumes "numlib_ok lib"
  shows "length (fst (generate_pn_sequence lib self n)) = n
       \<and> set (fst (generate_pn_sequence lib self n)) \<subseteq> {- 1, 1}
       \<and> snd (generate_pn_sequence lib self n) = self
       \<and> fst (generate_pn_sequence lib (snd (generate_pn_sequence lib self n)) n)
           = fst (generate_pn_sequence lib self n)
       \<and> (seed other = seed self \<longrightarrow>
            fst (generate_pn_sequence lib other n) = fst (generate_pn_sequence lib self n))"
proof (intro conjI impI)
  show "length (fst (generate_pn_sequence lib self n)) = n"
    using assms by (rule length_generate_pn_sequence)
  show "set (fst (generate_pn_sequence lib self n)) \<subseteq> {- 1, 1}"
    using assms by (rule generate_pn_sequence_values)
  show same: "snd (generate_pn_sequence lib self n) = self"
    by (simp add: generate_pn_sequence_def Let_def)
  show "fst (generate_pn_sequence lib (snd (generate_pn_sequence lib self n)) n)
           = fst (generate_pn_sequence lib self n)"
    by (simp only: same)
  assume "seed other = seed self"
  then show "fst (generate_pn_sequence lib other n) = fst (generate_pn_sequence lib self n)"
    by (simp add: generate_pn_sequence_def Let_def)
qed

theorem generate_pn_contract_witness:
  "numlib_ok toy_numlib
   \<and> seed (toy_deepseal\<lparr>rng := 7, chip_rate := 512\<rparr>) = seed toy_deepseal
   \<and> fst (generate_pn_sequence toy_numlib toy_deepseal 4) = [1, - 1, 1, - 1]
   \<and> snd (generate_pn_sequence toy_numlib toy_deepseal 4) = toy_deepseal
   \<and> fst (generate_pn_sequence toy_numlib (toy_deepseal\<lparr>rng := 7, chip_rate := 512\<rparr>) 4)
       = [1, - 1, 1, - 1]"
proof -
  have s: "seed (toy_deepseal\<lparr>rng := 7, chip_rate := 512\<rparr>) = seed toy_deepseal"
    by simp
  have v: "fst (generate_pn_sequence toy_numlib toy_deepseal 4) = [1, - 1, 1, - 1]"
    by (simp add: generate_pn_sequence_def Let_def toy_numlib_def toy_deepseal_fields
        upt_conv_Cons)
  from generate_pn_contract [OF toy_numlib_ok, of toy_deepseal 4
      "toy_deepseal\<lparr>rng := 7, chip_rate := 512\<rparr>"] s v toy_numlib_ok
  show ?thesis by simp
qed

section \<open>The coarse-sync search window\<close>

lemma search_len_eq: "search_len self = 32 * chip_rate self + 88200"
  by (simp add: search_len_def Let_def length_preamble_bits)

text \<open>
  Claim C6.  The coarse-sync search window is meant to be the first
  \<open>32\<cdot>chip_rate + 2\<cdot>sample_rate\<close> samples.  The source adds the literal \<open>44100 * 2\<close>
  where the claim has twice the configured sample rate.  For a watermarker configured
  with \<open>chip_rate = 256\<close> and \<open>sample_rate = 8000\<close> the window is 96392 samples long,
  not 24192, and the first correlation runs over the first 96392 samples of an audio of
  100000 samples.
\<close>

theorem search_len_ignores_sample_rate:
  "search_len \<lparr>seed = 42, chip_rate = 256, sample_rate = 8000, telecom_mode = False, rng = (0::nat)\<rparr>
     = 96392
   \<and> 32 * chip_rate \<lparr>seed = 42, chip_rate = 256, sample_rate = 8000, telecom_mode = False, rng = (0::nat)\<rparr>
       + 2 * sample_rate \<lparr>seed = 42, chip_rate = 256, sample_rate = 8000, telecom_mode = False, rng = (0::nat)\<rparr>
     = 24192
   \<and> length (search_window
               \<lparr>seed = 42, chip_rate = 256, sample_rate = 8000, telecom_mode = False, rng = (0::nat)\<rparr>
               (replicate 100000 0)) = 96392"
  by (simp add: search_len_eq search_window_def)

section \<open>Seed derivation\<close>











section \<open>The embedder: failures, length and frame boundary\<close>

lemma length_encode_block: "length (encode_block nibble) = 7"
  by (simp add: encode_block_def vec_mat_def G_def)

lemma set_encode_block: "set (encode_block nibble) \<subseteq> {0, 1}"
  by (auto simp: encode_block_def)

lemma encode_hamming_ok:
  assumes "length bits = 4 * k" "0 < k"
  shows "\<exists>c. encode_hamming bits = Inr c \<and> length c = 7 * k \<and> set c \<subseteq> {0, 1}"
proof -
  let ?f = "\<lambda>i. encode_block (py_slice bits (i * 4) ((i + 1) * 4))"
  have k: "length bits div 4 = k" "length bits mod 4 = 0"
    using assms(1) by simp_all
  have eq: "encode_hamming bits = Inr (concat (map ?f [0 ..< k]))"
    using assms(2) by (simp add: encode_hamming_def np_concatenate_def k)
  have len: "length (concat (map ?f [0 ..< k])) = 7 * k"
    by (rule length_concat_blocks) (rule length_encode_block)
  have "set (concat (map ?f [0 ..< k])) \<subseteq> {0, 1}"
    using set_encode_block by auto
  with eq len show ?thesis by blast
qed

lemma length_np_repeat: "length (np_repeat xs k) = length xs * k"
  by (induction xs) (simp_all add: np_repeat_def)



lemma frame_bits_ok:
  assumes "numlib_ok lib" "0 \<le> wid" "wid < 2 ^ 28"
  shows "\<exists>bits. frame_bits lib wid = Inr bits \<and> length bits = 102"
proof -
  define p where "p = push_bit 28 1 OR wid"
  have p: "0 \<le> p" "p < 2 ^ 32"
    unfolding p_def using versioned_payload [of 1 wid] assms(2,3) by simp_all
  then obtain bs where bs: "to_bytes4 p = Inr bs"
    using to_bytes4_ok by blast
  define dat where "dat = int_to_bits p 32 @ int_to_bits (crc8 bs) 8"
  have "length dat = 4 * 10"
    by (simp add: dat_def length_int_to_bits)
  from encode_hamming_ok [OF this] obtain c where
    c: "encode_hamming dat = Inr c" "length c = 70"
    by auto
  define perm where "perm = fst (permutation lib (RandomState lib 0xDEADBEEF) (length c))"
  have "set perm = {0 ..< length c}"
    unfolding perm_def using assms(1) by (rule numlib_ok_permutation)
  then have tk: "np_take c perm = Inr (map (\<lambda>i. c ! i) perm)"
    by (simp add: np_take_def)
  have lp: "length perm = 70"
    unfolding perm_def using numlib_ok_permutation(1) [OF assms(1)] c(2) by simp
  have "frame_bits lib wid = Inr (preamble_bits @ map (\<lambda>i. c ! i) perm @ preamble_bits)"
  proof -
    have nle: "\<not> 2 ^ 28 \<le> wid" using assms(3) by simp
    show ?thesis
      unfolding frame_bits_def Let_def
      by (simp only: nle if_False p_def [symmetric] bs sum.case dat_def [symmetric] c(1)
          perm_def [symmetric] tk)
  qed
  then show ?thesis
    by (simp add: length_preamble_bits lp)
qed


lemma spread_spectrum_ok:
  assumes "numlib_ok lib"
  shows "\<exists>s. spread_spectrum lib self bits = Inr s \<and> length s = length bits * chip_rate self"
proof -
  let ?n = "length bits * chip_rate self"
  let ?m = "map real_of_int (map (\<lambda>b. b * 2 - 1) (np_repeat bits (chip_rate self)))"
  let ?pn = "fst (generate_pn_sequence lib self ?n)"
  have lm: "length ?m = ?n" by (simp add: length_np_repeat)
  have lp: "length ?pn = ?n" using assms by (rule length_generate_pn_sequence)
  have mul: "np_mul ?m ?pn = Inr (map2 (*) ?m ?pn)"
    using lm lp by (simp add: np_mul_def)
  have lz: "length (map2 (*) ?m ?pn) = ?n"
    using lm lp by simp
  show ?thesis
    unfolding spread_spectrum_def Let_def
    using lz by (simp only: mul sum.case) (simp add: length_apply_bandpass [OF assms])
qed





lemma mask_and_inject_short:
  "length audio < length spread \<Longrightarrow> mask_and_inject lib self audio spread = Inl HostTooShort"
  by (simp add: mask_and_inject_def)





lemma embed_result_spread:
  assumes "numlib_ok lib" "0 \<le> wid" "wid < 2 ^ 28"
  shows "\<exists>spread. length spread = 102 * chip_rate self
             \<and> embed_result lib self audio wid = mask_and_inject lib self audio spread"
proof -
  from frame_bits_ok [OF assms] obtain bits where
    bits: "frame_bits lib wid = Inr bits" "length bits = 102"
    by blast
  from spread_spectrum_ok [OF assms(1), of self bits] bits(2) obtain spread where
    spread: "spread_spectrum lib self bits = Inr spread" "length spread = 102 * chip_rate self"
    by auto
  have "embed_result lib self audio wid = mask_and_inject lib self audio spread"
    by (simp add: embed_result_def bits(1) spread(1))
  with spread(2) show ?thesis by blast
qed

lemma embed_result_short:
  assumes "numlib_ok lib" "0 \<le> wid" "wid < 2 ^ 28" "length audio < 102 * chip_rate self"
  shows "embed_result lib self audio wid = Inl HostTooShort"
proof -
  from embed_result_spread [OF assms(1-3)] obtain spread where
    "length spread = 102 * chip_rate self"
    "embed_result lib self audio wid = mask_and_inject lib self audio spread"
    by blast
  with assms(4) show ?thesis by (simp add: mask_and_inject_short)
qed







section \<open>The stream adapter hands the embedder a frame that is too short\<close>

lemma RealTimeInjector_init_fields:
  "chip_rate (ds (RealTimeInjector_init lib wid cr sr)) = cr"
  "chunk_size (RealTimeInjector_init lib wid cr sr) = 86 * cr"
  "watermark_id (RealTimeInjector_init lib wid cr sr) = wid"
  "buffer (RealTimeInjector_init lib wid cr sr) = []"
  by (simp_all add: RealTimeInjector_init_def DeepSeal_init_def)

text \<open>
  Claim C3.  The stream adapter is meant to cut a frame of \<open>86\<cdot>chip_rate\<close> samples off its
  buffer whenever the buffer holds that many, to embed it and to yield the embedded frame.
  It does cut the frame off and pass it to \<^verbatim>\<open>embed\<close>, but \<^verbatim>\<open>embed\<close> needs a host of
  \<open>102\<cdot>chip_rate\<close> samples: for every injector with a positive chip rate and an
  identifier in \<open>[0, 2\<^sup>2\<^sup>8)\<close>, the first full frame makes \<^verbatim>\<open>embed\<close> raise \<open>HostTooShort\<close>, the
  generator ends with that exception, and no embedded frame is ever yielded.
\<close>

theorem stream_frame_is_rejected:
  assumes "numlib_ok lib" and "0 < chip_rate (ds rti)"
    and "chunk_size rti = 86 * chip_rate (ds rti)"
    and "0 \<le> watermark_id rti" and "watermark_id rti < 2 ^ 28"
    and "chunk_size rti \<le> length (buffer rti)"
  shows "drain_buffer lib rti yielded =
           Some (rti\<lparr>buffer := drop (chunk_size rti) (buffer rti)\<rparr>, yielded, Some HostTooShort)"
proof -
  let ?frame = "take (chunk_size rti) (buffer rti)"
  let ?rti = "rti\<lparr>buffer := drop (chunk_size rti) (buffer rti)\<rparr>"
  have "length ?frame = 86 * chip_rate (ds rti)"
    using assms(3,6) by simp
  then have "length ?frame < 102 * chip_rate (ds rti)"
    using assms(2) by simp
  with assms(1,4,5) have "embed_result lib (ds rti) ?frame (watermark_id rti) = Inl HostTooShort"
    by (rule embed_result_short)
  then have "fst (embed lib (ds ?rti) ?frame (watermark_id ?rti)) = Inl HostTooShort"
    by (simp add: embed_def)
  then show ?thesis
    using assms(6) by (subst drain_buffer.simps) (simp add: Let_def)
qed

theorem stream_frame_is_rejected_witness:
  "numlib_ok toy_numlib
   \<and> 0 < chip_rate (ds (RealTimeInjector_init toy_numlib 123456 256 44100))
   \<and> process_stream toy_numlib (RealTimeInjector_init toy_numlib 123456 256 44100)
         [replicate 22016 0]
       = Some (RealTimeInjector_init toy_numlib 123456 256 44100, [], Some HostTooShort)"
proof -
  let ?rti = "RealTimeInjector_init toy_numlib 123456 256 44100"
  let ?full = "?rti\<lparr>buffer := buffer ?rti @ replicate 22016 0\<rparr>"
  have cr: "0 < chip_rate (ds ?full)" "0 < chip_rate (ds ?rti)"
    by (simp_all add: RealTimeInjector_init_fields)
  have cs: "chunk_size ?full = 86 * chip_rate (ds ?full)"
    by (simp add: RealTimeInjector_init_fields)
  have id: "0 \<le> watermark_id ?full" "watermark_id ?full < 2 ^ 28"
    by (simp_all add: RealTimeInjector_init_fields)
  have full: "chunk_size ?full \<le> length (buffer ?full)"
    by (simp add: RealTimeInjector_init_fields)
  have after: "?full\<lparr>buffer := drop (chunk_size ?full) (buffer ?full)\<rparr> = ?rti"
    by (simp add: RealTimeInjector_init_fields RealTimeInjector_init_def)
  from stream_frame_is_rejected [OF toy_numlib_ok cr(1) cs id full, of "[]"]
  have "drain_buffer toy_numlib ?full [] = Some (?rti, [], Some HostTooShort)"
    by (simp only: after)
  then have "process_stream toy_numlib ?rti [replicate 22016 0]
               = Some (?rti, [], Some HostTooShort)"
    by (simp add: process_stream_def)
  with toy_numlib_ok cr(2) show ?thesis by simp
qed

end
